theory Spec2Isabelle
  imports Complex_Main "HOL-Library.Word"
begin

section \<open>Data model of learning_lib.py\<close>

text \<open>
  Arrays of floating point numbers are modelled over the reals: a parameter or gradient
  pytree by the list of its leaves, a rank-1 array by a list, a rank-2 array by a list of
  rows. A value that lives on every execution replica (the output or the state of
  \<^verbatim>\<open>jax.pmap\<close>) is the list of its per-replica values, replica 0 first.
\<close>

datatype error = StopIteration | ValueError | IndexError | ZeroDivisionError

text \<open>\<^verbatim>\<open>class TrainingState(NamedTuple)\<close>\<close>

record ('o, 'k) TrainingState =
  params :: "real list"
  target_params :: "real list"
  opt_state :: 'o
  steps :: int
  rng_key :: 'k

text \<open>
  \<^verbatim>\<open>class LossExtra(NamedTuple)\<close>. The type of a metric and of the priorities changes
  with the stage: a scalar and a rank-1 array per internal step, one more leading axis
  once the sub-steps are stacked.
\<close>

record ('m, 'r) LossExtra =
  metrics :: "string \<rightharpoonup> 'm"
  reverb_priorities :: "'r option"

text \<open>\<^verbatim>\<open>class ReverbUpdate(NamedTuple)\<close>, both fields of shape (replicas, batch).\<close>

record ReverbUpdate =
  keys :: "64 word list list"
  priorities :: "real list list"

text \<open>
  The external collaborators of the learner: the loss with its gradient
  (\<^verbatim>\<open>jax.value_and_grad(self._loss, has_aux=True)\<close>), the network's \<^verbatim>\<open>init\<close>, the optax
  optimizer with \<^verbatim>\<open>optax.apply_updates\<close>, and \<^verbatim>\<open>jax.random.split\<close> at its two uses
  (two and three sub-keys). None of them is code of the learner; they are parameters.
\<close>

record ('o, 'k, 'b) collaborators =
  loss_value_and_grad ::
    "real list \<Rightarrow> real list \<Rightarrow> 'b \<Rightarrow> 'k \<Rightarrow> (real \<times> (real, real list) LossExtra) \<times> real list"
  network_init :: "'k \<Rightarrow> real list"
  optimizer_init :: "real list \<Rightarrow> 'o"
  optimizer_update :: "real list \<Rightarrow> 'o \<Rightarrow> real list \<times> 'o"
  apply_updates :: "real list \<Rightarrow> real list \<Rightarrow> real list"
  random_split :: "'k \<Rightarrow> 'k \<times> 'k"
  random_split3 :: "'k \<Rightarrow> 'k \<times> 'k \<times> 'k"

section \<open>The internal SGD step\<close>

text \<open>
  \<^verbatim>\<open>jax.lax.pmean(x, axis_name)\<close>: the arithmetic mean of the replicas' values, delivered to
  every replica; on a pytree, leaf by leaf.
\<close>

definition pmean :: "real list \<Rightarrow> real" where
  "pmean xs = sum_list xs / real (length xs)"

definition pmean_tree :: "real list list \<Rightarrow> real list" where
  "pmean_tree gs = map pmean (transpose gs)"

text \<open>
  \<^verbatim>\<open>optax.periodic_update(new_tensors, old_tensors, steps, update_period)\<close>.
  Modelled from the spec: the target synchronizer,
  \<^verbatim>\<open>target_params' = params if (steps mod period == 0) else target_params\<close>.
\<close>

definition periodic_update :: "'p \<Rightarrow> 'p \<Rightarrow> int \<Rightarrow> int \<Rightarrow> 'p" where
  "periodic_update new_tensors old_tensors steps' update_period =
     (if steps' mod update_period = 0 then new_tensors else old_tensors)"

text \<open>
  Lines 100 to 104 of \<^verbatim>\<open>sgd_step\<close>, on one replica: split the key, evaluate the loss and
  its gradient with the step key.
\<close>

definition sgd_step_grads ::
  "('o, 'k, 'b) collaborators \<Rightarrow> ('o, 'k) TrainingState \<Rightarrow> 'b \<Rightarrow>
     'k \<times> real \<times> (real, real list) LossExtra \<times> real list" where
  "sgd_step_grads env state batch =
     (let (next_rng_key, key) = random_split env (rng_key state);
          ((loss, extra), grads) =
             loss_value_and_grad env (params state) (target_params state) batch key
      in (next_rng_key, loss, extra, grads))"

text \<open>
  Lines 110 to 122 of \<^verbatim>\<open>sgd_step\<close>, on one replica, with \<open>loss\<close> and \<open>grads\<close> the results
  of the two \<^verbatim>\<open>pmean\<close> calls.
\<close>

definition sgd_step_apply ::
  "('o, 'k, 'b) collaborators \<Rightarrow> int \<Rightarrow> ('o, 'k) TrainingState \<Rightarrow> 'k \<Rightarrow> real \<Rightarrow>
     (real, real list) LossExtra \<Rightarrow> real list \<Rightarrow>
     ('o, 'k) TrainingState \<times> (real, real list) LossExtra" where
  "sgd_step_apply env target_update_period state next_rng_key loss extra grads =
     (let (updates, new_opt_state) = optimizer_update env grads (opt_state state);
          new_params = apply_updates env (params state) updates;
          extra' = extra\<lparr>metrics := (metrics extra)(''total_loss'' \<mapsto> loss)\<rparr>;
          steps' = steps state + 1;
          target_params' =
            periodic_update new_params (target_params state) steps' target_update_period;
          new_training_state =
            \<lparr>params = new_params, target_params = target_params',
             opt_state = new_opt_state, steps = steps', rng_key = next_rng_key\<rparr>
      in (new_training_state, extra'))"

text \<open>
  \<^verbatim>\<open>sgd_step\<close> as \<^verbatim>\<open>jax.pmap\<close> runs it: every replica evaluates its own loss and gradient on
  its own shard, the two collectives average them over the replicas, and every replica
  applies the optimizer to the averages.
\<close>

definition sgd_step ::
  "('o, 'k, 'b) collaborators \<Rightarrow> int \<Rightarrow> ('o, 'k) TrainingState list \<Rightarrow> 'b list \<Rightarrow>
     (('o, 'k) TrainingState \<times> (real, real list) LossExtra) list" where
  "sgd_step env target_update_period states batches =
     (let evaluated = map2 (sgd_step_grads env) states batches;
          loss = pmean (map (\<lambda>(next_rng_key, loss, extra, grads). loss) evaluated);
          grads = pmean_tree (map (\<lambda>(next_rng_key, loss, extra, grads). grads) evaluated)
      in map2 (\<lambda>state (next_rng_key, local_loss, extra, local_grads).
                 sgd_step_apply env target_update_period state next_rng_key loss extra grads)
           states evaluated)"

text \<open>
  What one replica contributes to the two collectives of \<^verbatim>\<open>sgd_step\<close>: the loss and the
  gradient it evaluates on its own shard with its own step key.
\<close>

definition local_loss :: "('o, 'k, 'b) collaborators \<Rightarrow> ('o, 'k) TrainingState \<Rightarrow> 'b \<Rightarrow> real" where
  "local_loss env state batch =
     fst (fst (loss_value_and_grad env (params state) (target_params state) batch
                 (snd (random_split env (rng_key state)))))"

definition local_grads :: "('o, 'k, 'b) collaborators \<Rightarrow> ('o, 'k) TrainingState \<Rightarrow> 'b \<Rightarrow> real list" where
  "local_grads env state batch =
     snd (loss_value_and_grad env (params state) (target_params state) batch
            (snd (random_split env (rng_key state))))"

text \<open>
  Successive internal steps, one list of per-replica batches for each, as the fold of the
  batcher runs them.
\<close>

primrec sgd_steps ::
  "('o, 'k, 'b) collaborators \<Rightarrow> int \<Rightarrow> ('o, 'k) TrainingState list \<Rightarrow> 'b list list \<Rightarrow>
     ('o, 'k) TrainingState list" where
  "sgd_steps env target_update_period states [] = states"
| "sgd_steps env target_update_period states (batches # rest) =
     sgd_steps env target_update_period
       (map fst (sgd_step env target_update_period states batches)) rest"

text \<open>
  The chain of keys that \<^verbatim>\<open>sgd_step\<close> threads through the state: \<open>state_key env k0 t\<close> is the
  \<open>rng_key\<close> after \<open>t\<close> internal steps from a state with key \<open>k0\<close>.
\<close>

primrec state_key :: "('o, 'k, 'b) collaborators \<Rightarrow> 'k \<Rightarrow> nat \<Rightarrow> 'k" where
  "state_key env k0 0 = k0"
| "state_key env k0 (Suc t) = fst (random_split env (state_key env k0 t))"

section \<open>Several internal steps per external step\<close>

text \<open>\<^verbatim>\<open>jnp.mean\<close> of a rank-1 array.\<close>

definition jnp_mean :: "real list \<Rightarrow> real" where
  "jnp_mean xs = sum_list xs / real (length xs)"

text \<open>
  Stacking the values of one pytree along a new leading axis, as \<^verbatim>\<open>jax.lax.scan\<close> does with
  the per-iteration outputs and \<^verbatim>\<open>jax.pmap\<close> with the per-replica outputs: a metric is
  present in the stack when every element has it, the optional priorities likewise.
\<close>

definition stack :: "('m, 'r) LossExtra list \<Rightarrow> ('m list, 'r list) LossExtra" where
  "stack ys =
     \<lparr>metrics = (\<lambda>name. those (map (\<lambda>y. metrics y name) ys)),
      reverb_priorities = those (map reverb_priorities ys)\<rparr>"

text \<open>
  \<^verbatim>\<open>postprocess_aux\<close> (lines 124 to 129), on one replica, where a metric has shape (K) and
  the priorities have shape (K, batch): \<^verbatim>\<open>jnp.reshape(a, (-1, *a.shape[2:]))\<close> merges the two
  leading axes, and \<^verbatim>\<open>jnp.mean\<close> reduces each metric to a scalar.
\<close>

definition postprocess_aux ::
  "(real list, real list list) LossExtra \<Rightarrow> (real, real list) LossExtra" where
  "postprocess_aux extra =
     (let reverb_priorities' = map_option concat (reverb_priorities extra)
      in \<lparr>metrics = (\<lambda>name. map_option jnp_mean (metrics extra name)),
          reverb_priorities = reverb_priorities'\<rparr>)"

text \<open>
  The input of one external step has, on every replica, its K sub-batches in order;
  \<open>sub_batch data j\<close> is what the replicas see in sub-step \<open>j\<close>.
\<close>

definition sub_batch :: "'b list list \<Rightarrow> nat \<Rightarrow> 'b list" where
  "sub_batch data j = map (\<lambda>shard. shard ! j) data"

text \<open>
  Modelled from the spec: \<^verbatim>\<open>utils.process_multiple_batches\<close> is not among the sources. The
  spec has it as a strict left fold that applies the step function K times, carries the
  state forward and collects the K \<open>extra\<close> values, which \<^verbatim>\<open>postprocess_aux\<close> then merges.
  The carry holds, for every replica, its state and the extras it has collected so far;
  the replicas advance together, since each internal step averages over all of them.
\<close>

primrec scan_sgd_step ::
  "('o, 'k, 'b) collaborators \<Rightarrow> int \<Rightarrow> 'b list list \<Rightarrow> nat list \<Rightarrow>
     (('o, 'k) TrainingState \<times> (real, real list) LossExtra list) list \<Rightarrow>
     (('o, 'k) TrainingState \<times> (real, real list) LossExtra list) list" where
  "scan_sgd_step env target_update_period data [] carry = carry"
| "scan_sgd_step env target_update_period data (j # js) carry =
     (let out = sgd_step env target_update_period (map fst carry) (sub_batch data j)
      in scan_sgd_step env target_update_period data js
           (map2 (\<lambda>(state, ys) (state', y). (state', ys @ [y])) carry out))"

text \<open>
  \<^verbatim>\<open>self._sgd_step\<close> (lines 132 to 135): the K-step function under \<^verbatim>\<open>jax.pmap\<close>. The leading
  axis of the state and of the data is the replica axis, and every shard splits into
  exactly K sub-batches; anything else is a shape error.
\<close>

definition pmapped_sgd_step ::
  "('o, 'k, 'b) collaborators \<Rightarrow> int \<Rightarrow> nat \<Rightarrow> ('o, 'k) TrainingState list \<Rightarrow>
     'b list list \<Rightarrow> error + (('o, 'k) TrainingState \<times> (real, real list) LossExtra) list" where
  "pmapped_sgd_step env target_update_period num_sgd_steps_per_step states data =
     (if length data = length states \<and>
         list_all (\<lambda>shard. length shard = num_sgd_steps_per_step) data
      then Inr (map (\<lambda>(state, ys). (state, postprocess_aux (stack ys)))
                  (scan_sgd_step env target_update_period data [0..<num_sgd_steps_per_step]
                     (map (\<lambda>state. (state, [])) states)))
      else Inl ValueError)"

text \<open>
  The \<open>extra\<close> that replica \<open>i\<close> produces in sub-step \<open>j\<close> of an external step that starts
  from \<open>states\<close> with the input \<open>data\<close>.
\<close>

definition sub_step_extra ::
  "('o, 'k, 'b) collaborators \<Rightarrow> int \<Rightarrow> ('o, 'k) TrainingState list \<Rightarrow> 'b list list \<Rightarrow>
     nat \<Rightarrow> nat \<Rightarrow> (real, real list) LossExtra" where
  "sub_step_extra env target_update_period states data j i =
     snd (sgd_step env target_update_period
            (sgd_steps env target_update_period states (map (sub_batch data) [0..<j]))
            (sub_batch data j) ! i)"

section \<open>The learner\<close>

text \<open>
  Modelled from the spec: \<^verbatim>\<open>utils.replicate_in_all_devices\<close> and
  \<^verbatim>\<open>utils.get_from_first_device\<close> are not among the sources. The first broadcasts one state
  identically to every execution replica, the second takes the copy of replica 0.
\<close>

definition replicate_in_all_devices :: "'a \<Rightarrow> nat \<Rightarrow> 'a list" where
  "replicate_in_all_devices nest devices = replicate devices nest"

definition get_from_first_device :: "'a list \<Rightarrow> error + 'a" where
  "get_from_first_device nest = (case nest of [] \<Rightarrow> Inl IndexError | x # _ \<Rightarrow> Inr x)"

text \<open>A Python \<^verbatim>\<open>dict\<close> built from pairs: a later pair wins over an earlier one.\<close>

definition py_dict :: "('a \<times> 'v) list \<Rightarrow> ('a \<rightharpoonup> 'v)" where
  "py_dict kvs = fold (\<lambda>(k, v) m. m(k \<mapsto> v)) kvs Map.empty"

text \<open>
  Modelled from the spec: the counter exposes
  \<^verbatim>\<open>increment(**named_deltas) -> mapping<name, cumulative_value>\<close>.
\<close>

definition counter_increment ::
  "(string \<rightharpoonup> real) \<Rightarrow> (string \<times> real) list \<Rightarrow> (string \<rightharpoonup> real)" where
  "counter_increment counts deltas =
     fold (\<lambda>(name, d) c. c(name \<mapsto> (case c name of None \<Rightarrow> d | Some v \<Rightarrow> v + d)))
       deltas counts"

text \<open>The handle of the replay store, and one \<^verbatim>\<open>mutate_priorities\<close> request to it.\<close>

datatype client = Client

record mutate_priorities =
  table :: string
  updates :: "64 word \<rightharpoonup> real"

text \<open>
  The attributes of an \<^verbatim>\<open>SGDLearner\<close> and the values its closures capture. The data
  iterator is the list of the splits it has yet to yield, each with the replay keys
  (host) and the sharded batch (device). The counter is its cumulative counts, the logger
  the rows written so far, and \<open>replay_requests\<close> the requests the replay store has
  received: the executor of the priority updates is modelled as running each submitted
  update at once.
\<close>

record ('o, 'k, 'b) SGDLearner =
  self_num_sgd_steps_per_step :: nat
  self_target_update_period :: int
  self_replay_client :: "client option"
  replay_table_name :: string
  devices :: nat
  self_data_iterator :: "(64 word list list \<times> 'b list list) list"
  self_state :: "('o, 'k) TrainingState list"
  self_timestamp :: "real option"
  self_current_step :: int
  self_counter :: "string \<rightharpoonup> real"
  self_logger :: "(string \<rightharpoonup> real) list"
  replay_requests :: "mutate_priorities list"

text \<open>The initial \<^verbatim>\<open>TrainingState\<close> of \<^verbatim>\<open>__init__\<close> (lines 148 to 158).\<close>

definition initial_state ::
  "('o, 'k, 'b) collaborators \<Rightarrow> 'k \<Rightarrow> ('o, 'k) TrainingState" where
  "initial_state env random_key =
     (let (key_params, key_target, key_state) = random_split3 env random_key;
          initial_params = network_init env key_params;
          initial_target_params = network_init env key_target
      in \<lparr>params = initial_params, target_params = initial_target_params,
          opt_state = optimizer_init env initial_params, steps = 0, rng_key = key_state\<rparr>)"

text \<open>\<^verbatim>\<open>SGDLearner.__init__\<close>; the default counter is empty and nothing is logged yet.\<close>

definition init ::
  "('o, 'k, 'b) collaborators \<Rightarrow> (64 word list list \<times> 'b list list) list \<Rightarrow> int \<Rightarrow> 'k \<Rightarrow>
     client option \<Rightarrow> string \<Rightarrow> nat \<Rightarrow> nat \<Rightarrow> ('o, 'k, 'b) SGDLearner" where
  "init env data_iterator target_update_period random_key replay_client table_name
        num_sgd_steps_per_step local_devices =
     \<lparr>self_num_sgd_steps_per_step = num_sgd_steps_per_step,
      self_target_update_period = target_update_period,
      self_replay_client = replay_client,
      replay_table_name = table_name,
      devices = local_devices,
      self_data_iterator = data_iterator,
      self_state = replicate_in_all_devices (initial_state env random_key) local_devices,
      self_timestamp = None,
      self_current_step = 0,
      self_counter = Map.empty,
      self_logger = [],
      replay_requests = []\<rparr>"

text \<open>
  \<^verbatim>\<open>update_priorities\<close> (lines 162 to 171): nothing without a client; otherwise the keys and
  the priorities, both of shape (replicas, batch), are reshaped to (replicas * batch) and
  sent as one request.
\<close>

definition update_priorities ::
  "client option \<Rightarrow> string \<Rightarrow> ReverbUpdate \<Rightarrow> mutate_priorities option" where
  "update_priorities replay_client table_name reverb_update =
     (case replay_client of
        None \<Rightarrow> None
      | Some c \<Rightarrow>
          (let keys' = concat (keys reverb_update);
               priorities' = concat (priorities reverb_update)
           in Some \<lparr>table = table_name, updates = py_dict (zip keys' priorities')\<rparr>))"

text \<open>
  The elapsed time of \<^verbatim>\<open>step\<close> (line 190). \<^verbatim>\<open>if self._timestamp\<close> is false for \<^verbatim>\<open>None\<close> and for
  the float zero.
\<close>

definition elapsed_time :: "real option \<Rightarrow> real \<Rightarrow> real" where
  "elapsed_time self_timestamp' timestamp' =
     (case self_timestamp' of
        None \<Rightarrow> 0
      | Some t \<Rightarrow> if t \<noteq> 0 then timestamp' - t else 0)"

text \<open>Python's \<^verbatim>\<open>/\<close> on numbers: a zero divisor raises \<^verbatim>\<open>ZeroDivisionError\<close>.\<close>

definition py_truediv :: "real \<Rightarrow> real \<Rightarrow> error + real" where
  "py_truediv a b = (if b = 0 then Inl ZeroDivisionError else Inr (a / b))"

text \<open>The throughput of \<^verbatim>\<open>step\<close> (line 197).\<close>

definition steps_per_second :: "nat \<Rightarrow> real \<Rightarrow> error + real" where
  "steps_per_second num_sgd_steps_per_step elapsed =
     (if elapsed \<noteq> 0 then py_truediv (real num_sgd_steps_per_step) elapsed else Inr 0)"

text \<open>
  The priority update of \<^verbatim>\<open>step\<close> (lines 193 to 195) with what the executor then does with
  it: the requests that reach the replay store in this call. \<open>extra\<close> is the output of the
  pmapped step, one \<^verbatim>\<open>LossExtra\<close> per replica; its priorities are not \<^verbatim>\<open>None\<close> when every
  replica has them.
\<close>

definition priority_requests ::
  "client option \<Rightarrow> string \<Rightarrow> 64 word list list \<Rightarrow> (real, real list) LossExtra list \<Rightarrow>
     mutate_priorities list" where
  "priority_requests replay_client table_name reverb_keys extra =
     (case (replay_client, those (map reverb_priorities extra)) of
        (Some c, Some reverb_priorities') \<Rightarrow>
          (case update_priorities replay_client table_name
                  \<lparr>keys = reverb_keys, priorities = reverb_priorities'\<rparr> of
             None \<Rightarrow> []
           | Some request \<Rightarrow> [request])
      | _ \<Rightarrow> [])"

text \<open>
  \<^verbatim>\<open>SGDLearner.step\<close>; \<open>now\<close> is what \<^verbatim>\<open>time.time()\<close> returns in this call. An exhausted
  iterator raises \<^verbatim>\<open>StopIteration\<close>.
\<close>

definition step ::
  "('o, 'k, 'b) collaborators \<Rightarrow> ('o, 'k, 'b) SGDLearner \<Rightarrow> real \<Rightarrow>
     error + ('o, 'k, 'b) SGDLearner" where
  "step env self now =
     (case self_data_iterator self of
        [] \<Rightarrow> Inl StopIteration
      | prefetching_split # rest \<Rightarrow>
          (let reverb_keys = fst prefetching_split;
               batch = snd prefetching_split
           in case pmapped_sgd_step env (self_target_update_period self)
                     (self_num_sgd_steps_per_step self) (self_state self) batch of
                Inl e \<Rightarrow> Inl e
              | Inr out \<Rightarrow>
                  (let new_state = map fst out;
                       extra = map snd out;
                       elapsed = elapsed_time (self_timestamp self) now;
                       requests =
                         priority_requests (self_replay_client self) (replay_table_name self)
                           reverb_keys extra
                   in case steps_per_second (self_num_sgd_steps_per_step self) elapsed of
                        Inl e \<Rightarrow> Inl e
                      | Inr steps_per_sec \<Rightarrow>
                          (case get_from_first_device
                                  (map2 (\<lambda>state' extra'. (steps state', metrics extra'))
                                     new_state extra) of
                             Inl e \<Rightarrow> Inl e
                           | Inr (current_step, metrics0) \<Rightarrow>
                               (let metrics' = metrics0(''steps_per_second'' \<mapsto> steps_per_sec);
                                    counts =
                                      counter_increment (self_counter self)
                                        [(''steps'', real (self_num_sgd_steps_per_step self)),
                                         (''walltime'', elapsed)];
                                    result = counts ++ metrics'
                                in Inr (self\<lparr>self_data_iterator := rest,
                                             self_state := new_state,
                                             self_timestamp := Some now,
                                             self_current_step := current_step,
                                             self_counter := counts,
                                             self_logger := self_logger self @ [result],
                                             replay_requests :=
                                               replay_requests self @ requests\<rparr>))))))"

text \<open>\<^verbatim>\<open>get_variables\<close>, \<^verbatim>\<open>save\<close> and \<^verbatim>\<open>restore\<close> (lines 208 to 217).\<close>

definition get_variables ::
  "('o, 'k, 'b) SGDLearner \<Rightarrow> string list \<Rightarrow> error + real list list" where
  "get_variables self names =
     (case get_from_first_device (map params (self_state self)) of
        Inl e \<Rightarrow> Inl e
      | Inr first \<Rightarrow> Inr [first])"

definition save :: "('o, 'k, 'b) SGDLearner \<Rightarrow> error + ('o, 'k) TrainingState" where
  "save self = get_from_first_device (self_state self)"

definition restore ::
  "('o, 'k, 'b) SGDLearner \<Rightarrow> ('o, 'k) TrainingState \<Rightarrow> ('o, 'k, 'b) SGDLearner" where
  "restore self state = self\<lparr>self_state := replicate_in_all_devices state (devices self)\<rparr>"

text \<open>Successive external steps, one per time stamp, stopping at the first error.\<close>

fun steps_run ::
  "('o, 'k, 'b) collaborators \<Rightarrow> ('o, 'k, 'b) SGDLearner \<Rightarrow> real list \<Rightarrow>
     error + ('o, 'k, 'b) SGDLearner" where
  "steps_run env self [] = Inr self"
| "steps_run env self (now # nows) =
     (case step env self now of Inl e \<Rightarrow> Inl e | Inr self' \<Rightarrow> steps_run env self' nows)"

text \<open>
  A split of the data iterator fits a learner with the given number of replicas and K when
  it has one shard per replica and every shard has K sub-batches.
\<close>

definition well_sharded :: "nat \<Rightarrow> nat \<Rightarrow> 'a \<times> 'b list list \<Rightarrow> bool" where
  "well_sharded replicas K prefetching_split =
     (length (snd prefetching_split) = replicas \<and>
      list_all (\<lambda>shard. length shard = K) (snd prefetching_split))"

section \<open>A concrete instance\<close>

text \<open>
  A small instance on which the model is run: keys are natural numbers split without
  collision, the network has one parameter, a batch is one number, which the loss returns
  as its value, its gradient, its metric \<open>m\<close> and its only priority, and the optimizer is
  plain gradient descent with step size one.
\<close>

definition demo_env :: "(unit, nat, real) collaborators" where
  "demo_env =
     \<lparr>loss_value_and_grad =
        (\<lambda>p t b k. ((b, \<lparr>metrics = [''m'' \<mapsto> b], reverb_priorities = Some [b]\<rparr>), [b])),
      network_init = (\<lambda>k. [real k]),
      optimizer_init = (\<lambda>p. ()),
      optimizer_update = (\<lambda>g s. (map uminus g, ())),
      apply_updates = (\<lambda>p u. map2 (+) p u),
      random_split = (\<lambda>k. (2 * k + 1, 2 * k + 2)),
      random_split3 = (\<lambda>k. (3 * k + 1, 3 * k + 2, 3 * k + 3))\<rparr>"

definition demo_state :: "(unit, nat) TrainingState" where
  "demo_state = \<lparr>params = [1], target_params = [2], opt_state = (), steps = 0, rng_key = 3\<rparr>"

text \<open>
  A learner on two replicas with two internal steps per external step and a target
  period of two; its iterator holds two splits.
\<close>

definition demo_learner :: "client option \<Rightarrow> (unit, nat, real) SGDLearner" where
  "demo_learner replay_client =
     init demo_env
       [([[10, 11], [12, 13]], [[1, 2], [3, 5]]), ([[20, 21], [22, 23]], [[2, 2], [4, 4]])]
       2 7 replay_client ''priority_table'' 2 2"

section \<open>Properties of one internal step\<close>

lemma length_sgd_step:
  "length (sgd_step env P states batches) = min (length states) (length batches)"
  by (simp add: sgd_step_def Let_def)

lemma steps_sgd_step_apply:
  "steps (fst (sgd_step_apply env P state k l e g)) = steps state + 1"
  by (simp add: sgd_step_apply_def Let_def split: prod.splits)

lemma target_sgd_step_apply:
  "target_params (fst (sgd_step_apply env P state k l e g)) =
     (if (steps state + 1) mod P = 0 then params (fst (sgd_step_apply env P state k l e g))
      else target_params state)"
  by (simp add: sgd_step_apply_def periodic_update_def Let_def split: prod.splits)

lemma sgd_step_nth:
  assumes "i < length states" "length batches = length states"
  shows "\<exists>k l e g. sgd_step env P states batches ! i = sgd_step_apply env P (states ! i) k l e g"
  using assms by (auto simp: sgd_step_def Let_def split: prod.splits)

lemma sgd_step_one:
  assumes "length batches = length states" and "i < length states"
  shows "steps (fst (sgd_step env P states batches ! i)) = steps (states ! i) + 1 \<and>
         target_params (fst (sgd_step env P states batches ! i)) =
           (if (steps (states ! i) + 1) mod P = 0
            then params (fst (sgd_step env P states batches ! i))
            else target_params (states ! i))"
proof -
  obtain k l e g where
    "sgd_step env P states batches ! i = sgd_step_apply env P (states ! i) k l e g"
    using sgd_step_nth [OF assms(2) assms(1)] by blast
  then show ?thesis
    by (simp add: steps_sgd_step_apply target_sgd_step_apply)
qed

lemmas demo_defs =
  demo_env_def demo_state_def sgd_step_def sgd_step_grads_def sgd_step_apply_def
  pmean_def pmean_tree_def periodic_update_def Let_def

text \<open>
  C1, as amended. For a positive \<open>target_update_period\<close> \<open>P\<close>, one internal step on any
  replicated state raises \<open>steps\<close> by one on every replica and leaves there, as the new
  \<open>target_params\<close>, the parameters the step has just produced when the incremented step
  count is divisible by \<open>P\<close>, and the old \<open>target_params\<close> otherwise. With \<open>P = 2\<close> and three
  successive steps from a state with \<open>steps = 0\<close>, initial parameters \<open>params_0\<close> and an
  arbitrary initial target \<open>target_0\<close>, and with \<open>params_k\<close> the parameters after step \<open>k\<close>:
  after step 1 the target is still \<open>target_0\<close>, after step 2 it is \<open>params_2\<close>, the
  parameters that step 2 has produced, and step 3 leaves it there.
\<close>

theorem sgd_step_target_sync:
  assumes "0 < P" and "length batches = length states" and "i < length states"
  shows "steps (fst (sgd_step env P states batches ! i)) = steps (states ! i) + 1 \<and>
         target_params (fst (sgd_step env P states batches ! i)) =
           (if steps (fst (sgd_step env P states batches ! i)) mod P = 0
            then params (fst (sgd_step env P states batches ! i))
            else target_params (states ! i)) \<and>
         (P = 2 \<and> steps (states ! i) = 0 \<and>
          length batches2 = length states \<and> length batches3 = length states \<longrightarrow>
            (let s1 = map fst (sgd_step env P states batches);
                 s2 = map fst (sgd_step env P s1 batches2);
                 s3 = map fst (sgd_step env P s2 batches3)
             in target_params (s1 ! i) = target_params (states ! i) \<and>
                target_params (s2 ! i) =
                  [params (states ! i), params (s1 ! i), params (s2 ! i), params (s3 ! i)] ! 2 \<and>
                target_params (s3 ! i) = params (s2 ! i)))"
proof -
  have one: "steps (fst (sgd_step env P states batches ! i)) = steps (states ! i) + 1 \<and>
         target_params (fst (sgd_step env P states batches ! i)) =
           (if steps (fst (sgd_step env P states batches ! i)) mod P = 0
            then params (fst (sgd_step env P states batches ! i))
            else target_params (states ! i))"
    using sgd_step_one [OF assms(2) assms(3), of env P] by simp
  have scenario:
    "(let s1 = map fst (sgd_step env P states batches);
          s2 = map fst (sgd_step env P s1 batches2);
          s3 = map fst (sgd_step env P s2 batches3)
      in target_params (s1 ! i) = target_params (states ! i) \<and>
         target_params (s2 ! i) =
                  [params (states ! i), params (s1 ! i), params (s2 ! i), params (s3 ! i)] ! 2 \<and>
         target_params (s3 ! i) = params (s2 ! i))"
    if h: "P = 2" "steps (states ! i) = 0"
      "length batches2 = length states" "length batches3 = length states"
  proof -
    define s1 where "s1 = map fst (sgd_step env P states batches)"
    define s2 where "s2 = map fst (sgd_step env P s1 batches2)"
    define s3 where "s3 = map fst (sgd_step env P s2 batches3)"
    have l1: "length s1 = length states"
      by (simp add: s1_def length_sgd_step assms(2))
    have l2: "length s2 = length states"
      by (simp add: s2_def length_sgd_step l1 h(3))
    have i1: "s1 ! i = fst (sgd_step env P states batches ! i)"
      by (simp add: s1_def length_sgd_step assms(2) assms(3))
    have i2: "s2 ! i = fst (sgd_step env P s1 batches2 ! i)"
      by (simp add: s2_def length_sgd_step l1 h(3) assms(3))
    have i3: "s3 ! i = fst (sgd_step env P s2 batches3 ! i)"
      by (simp add: s3_def length_sgd_step l2 h(4) assms(3))
    have a1: "steps (s1 ! i) = 1 \<and> target_params (s1 ! i) = target_params (states ! i)"
      using sgd_step_one [OF assms(2) assms(3), of env P] h(1) h(2) by (simp add: i1)
    have a2: "steps (s2 ! i) = 2 \<and> target_params (s2 ! i) = params (s2 ! i)"
      using sgd_step_one [of batches2 s1 i env P] l1 h(1) h(3) assms(3) a1 by (simp add: i2)
    have a3: "target_params (s3 ! i) = target_params (s2 ! i)"
      using sgd_step_one [of batches3 s2 i env P] l2 h(1) h(4) assms(3) a2 by (simp add: i3)
    show ?thesis
      unfolding Let_def s1_def [symmetric] s2_def [symmetric] s3_def [symmetric]
      using a1 a2 a3 by simp
  qed
  show ?thesis using one scenario by blast
qed

theorem sgd_step_target_sync_witness:
  "(0::int) < 2 \<and> length [1, 3 :: real] = length [demo_state, demo_state] \<and>
   (0::nat) < length [demo_state, demo_state] \<and> steps ([demo_state, demo_state] ! 0) = 0 \<and>
   target_params (fst (sgd_step demo_env 2 [demo_state, demo_state] [1, 3] ! 0)) = [2] \<and>
   (let s1 = map fst (sgd_step demo_env 2 [demo_state, demo_state] [1, 3]);
        s2 = map fst (sgd_step demo_env 2 s1 [2, 4]);
        s3 = map fst (sgd_step demo_env 2 s2 [5, 6])
    in params (s1 ! 0) = [- 1] \<and> target_params (s1 ! 0) = [2] \<and>
       params (s2 ! 0) = [- 4] \<and> target_params (s2 ! 0) = [- 4] \<and>
       target_params (s3 ! 0) = [- 4])"
  using sgd_step_target_sync [where P = 2 and batches = "[1, 3]"
      and states = "[demo_state, demo_state]" and i = 0 and env = demo_env
      and ?batches2.0 = "[2, 4]" and ?batches3.0 = "[5, 6]"]
  by (simp add: demo_defs)

text \<open>
  C1, as stated, fails in its scenario: after step 2 the target is not \<open>params_1\<close>, the
  parameters after step 1. On the demo instance with \<open>P = 2\<close> the parameters after step 1
  are -1, and the target after step 2 is -4, the parameters after step 2.
\<close>

theorem target_after_step_two_is_not_params_one:
  "(let s1 = map fst (sgd_step demo_env 2 [demo_state, demo_state] [1, 3]);
        s2 = map fst (sgd_step demo_env 2 s1 [2, 4])
    in steps (demo_state) = 0 \<and> target_params demo_state = [2] \<and>
       params (s1 ! 0) = [- 1] \<and> target_params (s1 ! 0) = [2] \<and>
       params (s2 ! 0) = [- 4] \<and> target_params (s2 ! 0) = [- 4] \<and>
       target_params (s2 ! 0) \<noteq> params (s1 ! 0))"
  by (simp add: demo_defs)

lemma sgd_step_grads_eq:
  "sgd_step_grads env state batch =
     (fst (random_split env (rng_key state)), local_loss env state batch,
      snd (fst (loss_value_and_grad env (params state) (target_params state) batch
                 (snd (random_split env (rng_key state))))),
      local_grads env state batch)"
  by (simp add: sgd_step_grads_def local_loss_def local_grads_def split: prod.splits)

lemma sgd_step_nth_eq:
  assumes "length batches = length states" and "i < length states"
  shows "sgd_step env P states batches ! i =
     sgd_step_apply env P (states ! i) (fst (random_split env (rng_key (states ! i))))
       (pmean (map2 (local_loss env) states batches))
       (snd (fst (loss_value_and_grad env (params (states ! i)) (target_params (states ! i))
                   (batches ! i) (snd (random_split env (rng_key (states ! i)))))))
       (pmean_tree (map2 (local_grads env) states batches))"
  using assms
  by (simp add: sgd_step_def Let_def sgd_step_grads_eq comp_def case_prod_unfold)

lemma pmean_tree_leaf:
  assumes "gs \<noteq> []" and "\<forall>g\<in>set gs. length g = n" and "l < n"
  shows "pmean_tree gs ! l = sum_list (map (\<lambda>g. g ! l) gs) / real (length gs)"
proof -
  have "foldr (\<lambda>xs. max (length xs)) gs 0 = (if gs = [] then 0 else n)"
    using assms(2) by (induction gs) auto
  then have len: "length (transpose gs) = n"
    using assms(1) by (simp add: length_transpose)
  have "filter (\<lambda>ys. l < length ys) gs = gs"
    using assms(2,3) by (simp add: filter_id_conv)
  then have "transpose gs ! l = map (\<lambda>g. g ! l) gs"
    using nth_transpose [of l gs] len assms(3) by simp
  then show ?thesis
    using len assms(3) by (simp add: pmean_tree_def pmean_def)
qed


lemma fst_sgd_step_apply:
  "fst (sgd_step_apply env P state k l e g) =
     \<lparr>params = apply_updates env (params state) (fst (optimizer_update env g (opt_state state))),
      target_params =
        periodic_update
          (apply_updates env (params state) (fst (optimizer_update env g (opt_state state))))
          (target_params state) (steps state + 1) P,
      opt_state = snd (optimizer_update env g (opt_state state)),
      steps = steps state + 1,
      rng_key = k\<rparr>"
  by (simp add: sgd_step_apply_def Let_def split: prod.splits)

lemma snd_sgd_step_apply:
  "snd (sgd_step_apply env P state k l e g) = e\<lparr>metrics := (metrics e)(''total_loss'' \<mapsto> l)\<rparr>"
  by (simp add: sgd_step_apply_def Let_def split: prod.splits)

text \<open>
  C5. In an internal step the loss every replica reports and the gradient every replica
  hands to the optimizer are the arithmetic means, over all replicas, of the replicas'
  losses and, leaf by leaf, of the replicas' gradients: the optimizer update is applied to
  the averaged gradient only. So when all replicas hold the same \<open>TrainingState\<close> before
  the step, they hold the same one after it, whatever their shards were.
\<close>

theorem sgd_step_averages_over_replicas:
  assumes "length batches = length states" and "i < length states"
  shows "(let loss = pmean (map2 (local_loss env) states batches);
              grads = pmean_tree (map2 (local_grads env) states batches);
              out = sgd_step env P states batches
          in loss = sum_list (map2 (local_loss env) states batches) / real (length states) \<and>
             (\<forall>n l. (\<forall>g\<in>set (map2 (local_grads env) states batches). length g = n) \<and> l < n \<longrightarrow>
                grads ! l =
                  sum_list (map (\<lambda>g. g ! l) (map2 (local_grads env) states batches)) /
                    real (length states)) \<and>
             params (fst (out ! i)) =
               apply_updates env (params (states ! i))
                 (fst (optimizer_update env grads (opt_state (states ! i)))) \<and>
             opt_state (fst (out ! i)) = snd (optimizer_update env grads (opt_state (states ! i))) \<and>
             metrics (snd (out ! i)) ''total_loss'' = Some loss \<and>
             ((\<forall>j<length states. states ! j = states ! i) \<longrightarrow>
                (\<forall>j<length states. fst (out ! j) = fst (out ! i))))"
proof -
  let ?gs = "map2 (local_grads env) states batches"
  let ?loss = "pmean (map2 (local_loss env) states batches)"
  let ?grads = "pmean_tree ?gs"
  let ?out = "sgd_step env P states batches"
  have ne: "?gs \<noteq> []"
    using assms by (cases states; cases batches) auto
  have len: "length ?gs = length states"
    using assms by simp
  have a: "?loss = sum_list (map2 (local_loss env) states batches) / real (length states)"
    using assms by (simp add: pmean_def)
  have b: "?grads ! l = sum_list (map (\<lambda>g. g ! l) ?gs) / real (length states)"
    if "\<forall>g\<in>set ?gs. length g = n" and "l < n" for n l
    using pmean_tree_leaf [OF ne that] len by simp
  have c: "params (fst (?out ! i)) =
             apply_updates env (params (states ! i))
               (fst (optimizer_update env ?grads (opt_state (states ! i))))"
    "opt_state (fst (?out ! i)) = snd (optimizer_update env ?grads (opt_state (states ! i)))"
    "metrics (snd (?out ! i)) ''total_loss'' = Some ?loss"
    using sgd_step_nth_eq [OF assms, of env P]
    by (simp_all add: fst_sgd_step_apply snd_sgd_step_apply)
  have d: "fst (?out ! j) = fst (?out ! i)"
    if "\<forall>j<length states. states ! j = states ! i" and "j < length states" for j
    using sgd_step_nth_eq [OF assms, of env P] sgd_step_nth_eq [OF assms(1) that(2), of env P] that
    by (simp add: fst_sgd_step_apply)
  show ?thesis
    unfolding Let_def using a b c d by blast
qed

theorem sgd_step_averages_over_replicas_witness:
  "length [1, 3 :: real] = length [demo_state, demo_state] \<and>
   (let out = sgd_step demo_env 2 [demo_state, demo_state] [1, 3]
    in fst (out ! 1) = fst (out ! 0) \<and> params (fst (out ! 0)) = [- 1] \<and>
       metrics (snd (out ! 0)) ''total_loss'' = Some 2) \<and>
   pmean_tree (map2 (local_grads demo_env) [demo_state, demo_state] [1, 3]) ! 0 = (1 + 3) / 2"
proof -
  have h1: "length [1, 3 :: real] = length [demo_state, demo_state]"
    by simp
  have h2: "0 < length [demo_state, demo_state]"
    by simp
  have sync: "\<forall>j<length [demo_state, demo_state].
      [demo_state, demo_state] ! j = [demo_state, demo_state] ! 0"
    by (simp add: nth_Cons')
  have leaves: "(\<forall>g\<in>set (map2 (local_grads demo_env) [demo_state, demo_state] [1, 3]).
      length g = 1) \<and> (0::nat) < 1"
    by (simp add: local_grads_def demo_env_def)
  note t = sgd_step_averages_over_replicas [OF h1 h2, of demo_env 2, unfolded Let_def]
  note t_leaf = t [THEN conjunct2, THEN conjunct1, rule_format, OF leaves]
  note t_sync = t [THEN conjunct2, THEN conjunct2, THEN conjunct2, THEN conjunct2,
      THEN conjunct2, THEN mp, OF sync, rule_format, of 1]
  have a: "fst (sgd_step demo_env 2 [demo_state, demo_state] [1, 3] ! 1) =
      fst (sgd_step demo_env 2 [demo_state, demo_state] [1, 3] ! 0)"
    by (rule t_sync) simp
  have c: "sum_list (map (\<lambda>g. g ! 0) (map2 (local_grads demo_env) [demo_state, demo_state] [1, 3])) /
         real (length [demo_state, demo_state]) = (1 + 3) / 2"
    by (simp add: local_grads_def demo_env_def)
  have b: "pmean_tree (map2 (local_grads demo_env) [demo_state, demo_state] [1, 3]) ! 0 = (1 + 3) / 2"
    using t_leaf c by (rule trans)
  have d: "params (fst (sgd_step demo_env 2 [demo_state, demo_state] [1, 3] ! 0)) = [- 1]"
    by (simp add: demo_defs)
  have e: "metrics (snd (sgd_step demo_env 2 [demo_state, demo_state] [1, 3] ! 0)) ''total_loss'' = Some 2"
    by (simp add: demo_defs)
  show ?thesis
    unfolding Let_def by (intro conjI h1 a b d e)
qed

section \<open>Properties of the external step\<close>


lemma length_sub_batch: "length (sub_batch data j) = length data"
  by (simp add: sub_batch_def)

lemma length_scan_sgd_step:
  "length data = length carry \<Longrightarrow> length (scan_sgd_step env P data js carry) = length carry"
  by (induction js arbitrary: carry) (simp_all add: Let_def length_sgd_step length_sub_batch)

lemma scan_step_carry_nth:
  assumes "length data = length carry" and "i < length carry"
  shows "map2 (\<lambda>(state, ys) (state', y). (state', ys @ [y])) carry
           (sgd_step env P (map fst carry) (sub_batch data j)) ! i =
         (fst (sgd_step env P (map fst carry) (sub_batch data j) ! i),
          snd (carry ! i) @ [snd (sgd_step env P (map fst carry) (sub_batch data j) ! i)])"
  using assms by (simp add: length_sgd_step length_sub_batch split: prod.splits)

lemma steps_scan_sgd_step:
  assumes "length data = length carry" and "i < length carry"
  shows "steps (fst (scan_sgd_step env P data js carry ! i)) =
           steps (fst (carry ! i)) + int (length js)"
  using assms
proof (induction js arbitrary: carry)
  case Nil
  then show ?case by simp
next
  case (Cons j js)
  let ?out = "sgd_step env P (map fst carry) (sub_batch data j)"
  let ?carry' = "map2 (\<lambda>(state, ys) (state', y). (state', ys @ [y])) carry ?out"
  have len: "length ?carry' = length carry"
    using Cons.prems by (simp add: length_sgd_step length_sub_batch)
  have "steps (fst (?carry' ! i)) = steps (fst (carry ! i)) + 1"
    using Cons.prems sgd_step_one [of "sub_batch data j" "map fst carry" i env P]
    by (simp add: scan_step_carry_nth length_sub_batch)
  moreover have "steps (fst (scan_sgd_step env P data js ?carry' ! i)) =
      steps (fst (?carry' ! i)) + int (length js)"
    using Cons.IH [of ?carry'] Cons.prems len by simp
  ultimately show ?case by (simp add: Let_def)
qed

lemma pmapped_sgd_step_Inr:
  assumes "pmapped_sgd_step env P K states data = Inr out"
  shows "length out = length states \<and>
         (\<forall>i<length states. steps (fst (out ! i)) = steps (states ! i) + int K)"
proof -
  let ?carry = "map (\<lambda>state. (state, [])) states"
  let ?res = "scan_sgd_step env P data [0..<K] ?carry"
  from assms have shape: "length data = length states"
    and out: "out = map (\<lambda>(state, ys). (state, postprocess_aux (stack ys))) ?res"
    by (auto simp: pmapped_sgd_step_def split: if_splits)
  have len: "length ?res = length states"
    using length_scan_sgd_step [of data ?carry env P "[0..<K]"] shape by simp
  have "steps (fst (out ! i)) = steps (states ! i) + int K" if "i < length states" for i
  proof -
    have "fst (out ! i) = fst (?res ! i)"
      using that len by (simp add: out split: prod.splits)
    then show ?thesis
      using steps_scan_sgd_step [of data ?carry i env P "[0..<K]"] shape that by simp
  qed
  then show ?thesis using len by (simp add: out)
qed

lemma pmapped_sgd_step_returns:
  assumes "length data = length states" and "list_all (\<lambda>shard. length shard = K) data"
  shows "\<exists>out. pmapped_sgd_step env P K states data = Inr out"
  using assms by (simp add: pmapped_sgd_step_def)



lemma steps_per_second_Inr:
  "steps_per_second K elapsed = Inr (if elapsed = 0 then 0 else real K / elapsed)"
  by (simp add: steps_per_second_def py_truediv_def)

lemma step_result:
  assumes "step env self now = Inr self'"
  shows "\<exists>prefetching_split rest out.
           self_data_iterator self = prefetching_split # rest \<and>
           pmapped_sgd_step env (self_target_update_period self)
             (self_num_sgd_steps_per_step self) (self_state self) (snd prefetching_split) = Inr out \<and>
           out \<noteq> [] \<and>
           self' = self
             \<lparr>self_data_iterator := rest,
              self_state := map fst out,
              self_timestamp := Some now,
              self_current_step := steps (fst (hd out)),
              self_counter :=
                counter_increment (self_counter self)
                  [(''steps'', real (self_num_sgd_steps_per_step self)),
                   (''walltime'', elapsed_time (self_timestamp self) now)],
              self_logger := self_logger self @
                [counter_increment (self_counter self)
                   [(''steps'', real (self_num_sgd_steps_per_step self)),
                    (''walltime'', elapsed_time (self_timestamp self) now)] ++
                 (metrics (snd (hd out)))
                   (''steps_per_second'' \<mapsto>
                      (if elapsed_time (self_timestamp self) now = 0 then 0
                       else real (self_num_sgd_steps_per_step self) /
                            elapsed_time (self_timestamp self) now))],
              replay_requests := replay_requests self @
                priority_requests (self_replay_client self) (replay_table_name self)
                  (fst prefetching_split) (map snd out)\<rparr>"
  using assms
  by (auto simp: step_def Let_def get_from_first_device_def zip_map_fst_snd
      steps_per_second_Inr split: list.splits sum.splits prod.splits)

lemma step_Inr:
  assumes "step env self now = Inr self'"
  shows "\<exists>prefetching_split out.
           self_data_iterator self = prefetching_split # self_data_iterator self' \<and>
           pmapped_sgd_step env (self_target_update_period self)
             (self_num_sgd_steps_per_step self) (self_state self) (snd prefetching_split) = Inr out \<and>
           out \<noteq> [] \<and>
           self_state self' = map fst out \<and>
           self_timestamp self' = Some now \<and>
           self_current_step self' = steps (fst (hd out)) \<and>
           self_num_sgd_steps_per_step self' = self_num_sgd_steps_per_step self \<and>
           self_target_update_period self' = self_target_update_period self \<and>
           self_replay_client self' = self_replay_client self \<and>
           replay_table_name self' = replay_table_name self \<and>
           devices self' = devices self \<and>
           replay_requests self' = replay_requests self @
             priority_requests (self_replay_client self) (replay_table_name self)
               (fst prefetching_split) (map snd out)"
proof -
  from step_result [OF assms] obtain prefetching_split rest out where
    "self_data_iterator self = prefetching_split # rest"
    "pmapped_sgd_step env (self_target_update_period self)
       (self_num_sgd_steps_per_step self) (self_state self) (snd prefetching_split) = Inr out"
    "out \<noteq> []"
    and self': "self' = self
             \<lparr>self_data_iterator := rest,
              self_state := map fst out,
              self_timestamp := Some now,
              self_current_step := steps (fst (hd out)),
              self_counter :=
                counter_increment (self_counter self)
                  [(''steps'', real (self_num_sgd_steps_per_step self)),
                   (''walltime'', elapsed_time (self_timestamp self) now)],
              self_logger := self_logger self @
                [counter_increment (self_counter self)
                   [(''steps'', real (self_num_sgd_steps_per_step self)),
                    (''walltime'', elapsed_time (self_timestamp self) now)] ++
                 (metrics (snd (hd out)))
                   (''steps_per_second'' \<mapsto>
                      (if elapsed_time (self_timestamp self) now = 0 then 0
                       else real (self_num_sgd_steps_per_step self) /
                            elapsed_time (self_timestamp self) now))],
              replay_requests := replay_requests self @
                priority_requests (self_replay_client self) (replay_table_name self)
                  (fst prefetching_split) (map snd out)\<rparr>"
    by blast
  then show ?thesis
    by (intro exI [of _ prefetching_split] exI [of _ out]) (simp add: self')
qed

lemma step_returns:
  assumes "self_data_iterator self = prefetching_split # rest"
    and "well_sharded (length (self_state self)) (self_num_sgd_steps_per_step self) prefetching_split"
    and "self_state self \<noteq> []"
  shows "\<exists>self'. step env self now = Inr self'"
proof -
  obtain out where out: "pmapped_sgd_step env (self_target_update_period self)
             (self_num_sgd_steps_per_step self) (self_state self) (snd prefetching_split) = Inr out"
    using pmapped_sgd_step_returns assms(2) unfolding well_sharded_def by blast
  then have "length out = length (self_state self)"
    using pmapped_sgd_step_Inr by blast
  with assms(3) obtain o1 os where "out = o1 # os"
    by (cases out) auto
  with out assms(1) show ?thesis
    by (simp add: step_def Let_def get_from_first_device_def zip_map_fst_snd
        steps_per_second_Inr split: prod.splits)
qed


lemma priority_requests_no_client: "priority_requests None table_name reverb_keys extra = []"
  by (simp add: priority_requests_def)

lemma step_advances:
  assumes "self_data_iterator self = prefetching_split # rest"
    and "well_sharded (length (self_state self)) (self_num_sgd_steps_per_step self) prefetching_split"
    and "self_state self \<noteq> []"
  shows "\<exists>self'. step env self now = Inr self' \<and>
           self_data_iterator self' = rest \<and>
           self_num_sgd_steps_per_step self' = self_num_sgd_steps_per_step self \<and>
           self_replay_client self' = self_replay_client self \<and>
           length (self_state self') = length (self_state self) \<and>
           (\<forall>i<length (self_state self).
              steps (self_state self' ! i) =
                steps (self_state self ! i) + int (self_num_sgd_steps_per_step self)) \<and>
           (self_replay_client self = None \<longrightarrow> replay_requests self' = replay_requests self)"
proof -
  obtain self' where s: "step env self now = Inr self'"
    using step_returns [OF assms] by blast
  from step_Inr [OF s] assms(1) obtain out where
    out: "pmapped_sgd_step env (self_target_update_period self)
            (self_num_sgd_steps_per_step self) (self_state self) (snd prefetching_split) = Inr out"
    and st: "self_state self' = map fst out"
    and it: "self_data_iterator self' = rest"
    and k: "self_num_sgd_steps_per_step self' = self_num_sgd_steps_per_step self"
    and c: "self_replay_client self' = self_replay_client self"
    and r: "replay_requests self' = replay_requests self @
             priority_requests (self_replay_client self) (replay_table_name self)
               (fst prefetching_split) (map snd out)"
    by auto
  from pmapped_sgd_step_Inr [OF out] st have
    "length (self_state self') = length (self_state self)"
    "\<forall>i<length (self_state self).
       steps (self_state self' ! i) =
         steps (self_state self ! i) + int (self_num_sgd_steps_per_step self)"
    by simp_all
  moreover have "self_replay_client self = None \<longrightarrow> replay_requests self' = replay_requests self"
    using r by (simp add: priority_requests_no_client)
  ultimately show ?thesis using s it k c by (intro exI [of _ self']) simp
qed

lemma steps_run_advances:
  assumes "self_state self \<noteq> []"
    and "length nows \<le> length (self_data_iterator self)"
    and "list_all (well_sharded (length (self_state self)) (self_num_sgd_steps_per_step self))
           (take (length nows) (self_data_iterator self))"
  shows "\<exists>self'. steps_run env self nows = Inr self' \<and>
           length (self_state self') = length (self_state self) \<and>
           (\<forall>i<length (self_state self).
              steps (self_state self' ! i) =
                steps (self_state self ! i) +
                int (length nows) * int (self_num_sgd_steps_per_step self)) \<and>
           (self_replay_client self = None \<longrightarrow> replay_requests self' = replay_requests self)"
  using assms
proof (induction nows arbitrary: self)
  case Nil
  then show ?case by simp
next
  case (Cons now nows)
  from Cons.prems(2) obtain prefetching_split rest where
    it: "self_data_iterator self = prefetching_split # rest"
    by (cases "self_data_iterator self") auto
  with Cons.prems(3) have
    ws: "well_sharded (length (self_state self)) (self_num_sgd_steps_per_step self) prefetching_split"
    and ws': "list_all (well_sharded (length (self_state self)) (self_num_sgd_steps_per_step self))
           (take (length nows) rest)"
    by simp_all
  from step_advances [OF it ws Cons.prems(1), of env now] obtain self1 where
    s1: "step env self now = Inr self1"
    and it1: "self_data_iterator self1 = rest"
    and k1: "self_num_sgd_steps_per_step self1 = self_num_sgd_steps_per_step self"
    and c1: "self_replay_client self1 = self_replay_client self"
    and l1: "length (self_state self1) = length (self_state self)"
    and st1: "\<forall>i<length (self_state self).
              steps (self_state self1 ! i) =
                steps (self_state self ! i) + int (self_num_sgd_steps_per_step self)"
    and r1: "self_replay_client self = None \<longrightarrow> replay_requests self1 = replay_requests self"
    by auto
  have "self_state self1 \<noteq> []"
    using l1 Cons.prems(1) by auto
  moreover have "length nows \<le> length (self_data_iterator self1)"
    using Cons.prems(2) it it1 by simp
  ultimately obtain self' where
    r: "steps_run env self1 nows = Inr self'"
    and l': "length (self_state self') = length (self_state self1)"
    and st': "\<forall>i<length (self_state self1).
              steps (self_state self' ! i) =
                steps (self_state self1 ! i) +
                int (length nows) * int (self_num_sgd_steps_per_step self1)"
    and r': "self_replay_client self1 = None \<longrightarrow> replay_requests self' = replay_requests self1"
    using Cons.IH [of self1] ws' k1 l1 it1 by auto
  have "steps_run env self (now # nows) = Inr self'"
    using s1 r by simp
  moreover have "length (self_state self') = length (self_state self)"
    using l' l1 by simp
  moreover have "\<forall>i<length (self_state self).
              steps (self_state self' ! i) =
                steps (self_state self ! i) +
                int (length (now # nows)) * int (self_num_sgd_steps_per_step self)"
    using st1 st' l1 k1 by (simp add: algebra_simps)
  moreover have "self_replay_client self = None \<longrightarrow> replay_requests self' = replay_requests self"
    using r1 r' c1 by simp
  ultimately show ?case by (intro exI [of _ self']) simp
qed

text \<open>
  C2. With K = \<open>num_sgd_steps_per_step\<close> at least 1 and a learner that has at least one
  replica and whose iterator still holds M splits that fit it, M external \<open>step\<close> calls
  all return, and afterwards the \<open>steps\<close> field of every replica has grown by M * K: from
  the initial 0 it is M * K.
\<close>

theorem steps_after_external_steps:
  assumes "1 \<le> self_num_sgd_steps_per_step self"
    and "self_state self \<noteq> []"
    and "length nows \<le> length (self_data_iterator self)"
    and "list_all (well_sharded (length (self_state self)) (self_num_sgd_steps_per_step self))
           (take (length nows) (self_data_iterator self))"
  shows "\<exists>self'. steps_run env self nows = Inr self' \<and>
           length (self_state self') = length (self_state self) \<and>
           (\<forall>i<length (self_state self).
              steps (self_state self' ! i) =
                steps (self_state self ! i) +
                int (length nows) * int (self_num_sgd_steps_per_step self))"
  using steps_run_advances [OF assms(2) assms(3) assms(4), of env] by auto

theorem steps_after_external_steps_witness:
  "\<exists>self'. steps_run demo_env (demo_learner None) [100, 104] = Inr self' \<and>
      length (self_state self') = 2 \<and>
      steps (self_state self' ! 0) = 4 \<and> steps (self_state self' ! 1) = 4"
proof -
  have h1: "1 \<le> self_num_sgd_steps_per_step (demo_learner None)"
    by code_simp
  have h2: "self_state (demo_learner None) \<noteq> []"
    by code_simp
  have h3: "length [100, 104 :: real] \<le> length (self_data_iterator (demo_learner None))"
    by code_simp
  have h4: "list_all (well_sharded (length (self_state (demo_learner None)))
             (self_num_sgd_steps_per_step (demo_learner None)))
           (take (length [100, 104 :: real]) (self_data_iterator (demo_learner None)))"
    by code_simp
  have v: "length (self_state (demo_learner None)) = 2"
    "steps (self_state (demo_learner None) ! 0) = 0"
    "steps (self_state (demo_learner None) ! 1) = 0"
    "self_num_sgd_steps_per_step (demo_learner None) = 2"
    by code_simp+
  from steps_after_external_steps [OF h1 h2 h3 h4, of demo_env] v show ?thesis
    by auto
qed

lemma step_current_step:
  assumes "step env self now = Inr self'"
  shows "self_state self' \<noteq> [] \<and> self_current_step self' = steps (hd (self_state self'))"
  using step_Inr [OF assms] by (auto simp: hd_map)

lemma step_not_ZeroDivisionError: "step env self now \<noteq> Inl ZeroDivisionError"
  by (auto simp: step_def Let_def pmapped_sgd_step_def get_from_first_device_def
      steps_per_second_Inr split: list.splits sum.splits prod.splits if_splits)

lemma step_logged_steps_per_second:
  assumes "step env self now = Inr self'"
  shows "last (self_logger self') ''steps_per_second'' =
           Some (if elapsed_time (self_timestamp self) now = 0 then 0
                 else real (self_num_sgd_steps_per_step self) /
                      elapsed_time (self_timestamp self) now)"
  using step_result [OF assms] by auto

lemma step_timestamp:
  assumes "step env self now = Inr self'"
  shows "self_timestamp self' = Some now \<and>
         self_num_sgd_steps_per_step self' = self_num_sgd_steps_per_step self"
  using step_Inr [OF assms] by auto

lemma second_step_steps_per_second:
  assumes "step env self now = Inr self'" and "step env self' now' = Inr self''"
    and "now \<noteq> 0"
  shows "last (self_logger self'') ''steps_per_second'' =
           Some (if now' - now = 0 then 0
                 else real (self_num_sgd_steps_per_step self) / (now' - now))"
proof -
  have "elapsed_time (self_timestamp self') now' = now' - now"
    using step_timestamp [OF assms(1)] assms(3) by (simp add: elapsed_time_def)
  then show ?thesis
    using step_logged_steps_per_second [OF assms(2)] step_timestamp [OF assms(1)] by simp
qed

text \<open>
  C7. An external step never raises a division fault. When it returns, it has stored the
  time of this call as the learner's time stamp, and the row it logs has, under
  \<open>steps_per_second\<close>, the number of internal steps per step divided by the elapsed time E
  when E is positive, and 0 when E is 0. E is 0 when no time stamp is stored, as in a newly
  constructed learner, whose first call therefore reports 0; otherwise E is the time
  since the stored stamp (a stamp that is exactly the float zero counts as none). So of
  two successive calls at the times \<open>now\<close> and \<open>now'\<close>, the second reports the number of
  internal steps per step divided by \<open>now' - now\<close> when that is positive, and 0 when it
  is 0.
\<close>

theorem steps_per_second_reported:
  "step env self now \<noteq> Inl ZeroDivisionError \<and>
   steps_per_second (self_num_sgd_steps_per_step self) (elapsed_time (self_timestamp self) now)
     \<noteq> Inl ZeroDivisionError \<and>
   (step env self now = Inr self' \<longrightarrow>
      self_timestamp self' = Some now \<and>
      (0 < elapsed_time (self_timestamp self) now \<longrightarrow>
         last (self_logger self') ''steps_per_second'' =
           Some (real (self_num_sgd_steps_per_step self) /
                 elapsed_time (self_timestamp self) now)) \<and>
      (elapsed_time (self_timestamp self) now = 0 \<longrightarrow>
         last (self_logger self') ''steps_per_second'' = Some 0)) \<and>
   (self_timestamp self = None \<longrightarrow> elapsed_time (self_timestamp self) now = 0) \<and>
   (self_timestamp self = Some t \<and> t \<noteq> 0 \<longrightarrow>
      elapsed_time (self_timestamp self) now = now - t) \<and>
   self_timestamp
     (init env data_iterator P random_key replay_client table_name K local_devices) = None \<and>
   (step env (init env data_iterator P random_key replay_client table_name K local_devices)
      now = Inr first \<longrightarrow>
      last (self_logger first) ''steps_per_second'' = Some 0) \<and>
   (step env self now = Inr self' \<and> step env self' now' = Inr self'' \<and> now \<noteq> 0 \<longrightarrow>
      (0 < now' - now \<longrightarrow>
         last (self_logger self'') ''steps_per_second'' =
           Some (real (self_num_sgd_steps_per_step self) / (now' - now))) \<and>
      (now' - now = 0 \<longrightarrow>
         last (self_logger self'') ''steps_per_second'' = Some 0))"
proof -
  let ?fresh = "init env data_iterator P random_key replay_client table_name K local_devices"
  have a: "steps_per_second (self_num_sgd_steps_per_step self)
          (elapsed_time (self_timestamp self) now) \<noteq> Inl ZeroDivisionError"
    by (simp add: steps_per_second_Inr)
  have b: "self_timestamp self = None \<longrightarrow> elapsed_time (self_timestamp self) now = 0"
    by (simp add: elapsed_time_def)
  have c: "self_timestamp self = Some t \<and> t \<noteq> 0 \<longrightarrow>
      elapsed_time (self_timestamp self) now = now - t"
    by (simp add: elapsed_time_def)
  have d: "self_timestamp ?fresh = None"
    by (simp add: init_def)
  have e: "step env ?fresh now = Inr first \<longrightarrow>
      last (self_logger first) ''steps_per_second'' = Some 0"
  proof
    assume "step env ?fresh now = Inr first"
    then show "last (self_logger first) ''steps_per_second'' = Some 0"
      using step_logged_steps_per_second [of env ?fresh now first]
      by (simp add: d elapsed_time_def)
  qed
  have f: "step env self now = Inr self' \<longrightarrow>
      self_timestamp self' = Some now \<and>
      (0 < elapsed_time (self_timestamp self) now \<longrightarrow>
         last (self_logger self') ''steps_per_second'' =
           Some (real (self_num_sgd_steps_per_step self) /
                 elapsed_time (self_timestamp self) now)) \<and>
      (elapsed_time (self_timestamp self) now = 0 \<longrightarrow>
         last (self_logger self') ''steps_per_second'' = Some 0)"
  proof
    assume h: "step env self now = Inr self'"
    show "self_timestamp self' = Some now \<and>
      (0 < elapsed_time (self_timestamp self) now \<longrightarrow>
         last (self_logger self') ''steps_per_second'' =
           Some (real (self_num_sgd_steps_per_step self) /
                 elapsed_time (self_timestamp self) now)) \<and>
      (elapsed_time (self_timestamp self) now = 0 \<longrightarrow>
         last (self_logger self') ''steps_per_second'' = Some 0)"
      using step_logged_steps_per_second [OF h] step_timestamp [OF h] by simp
  qed
  have g: "step env self now = Inr self' \<and> step env self' now' = Inr self'' \<and> now \<noteq> 0 \<longrightarrow>
      (0 < now' - now \<longrightarrow>
         last (self_logger self'') ''steps_per_second'' =
           Some (real (self_num_sgd_steps_per_step self) / (now' - now))) \<and>
      (now' - now = 0 \<longrightarrow>
         last (self_logger self'') ''steps_per_second'' = Some 0)"
  proof
    assume "step env self now = Inr self' \<and> step env self' now' = Inr self'' \<and> now \<noteq> 0"
    then have h: "step env self now = Inr self'" "step env self' now' = Inr self''" "now \<noteq> 0"
      by simp_all
    show "(0 < now' - now \<longrightarrow>
         last (self_logger self'') ''steps_per_second'' =
           Some (real (self_num_sgd_steps_per_step self) / (now' - now))) \<and>
      (now' - now = 0 \<longrightarrow>
         last (self_logger self'') ''steps_per_second'' = Some 0)"
      using second_step_steps_per_second [OF h] by simp
  qed
  have z: "step env self now \<noteq> Inl ZeroDivisionError"
    by (rule step_not_ZeroDivisionError)
  show ?thesis
    by (intro conjI) (rule z, rule a, rule f, rule b, rule c, rule d, rule e, rule g)
qed

theorem steps_per_second_reported_witness:
  "\<exists>self1 self2.
      step demo_env (demo_learner None) 100 = Inr self1 \<and>
      last (self_logger self1) ''steps_per_second'' = Some 0 \<and>
      self_timestamp self1 = Some 100 \<and>
      step demo_env self1 104 = Inr self2 \<and>
      last (self_logger self2) ''steps_per_second'' = Some (2 / (104 - 100))"
proof -
  have "case steps_run demo_env (demo_learner None) [100, 104] of
          Inl e \<Rightarrow> False | Inr self2 \<Rightarrow> True"
    by code_simp
  then obtain self2 where "steps_run demo_env (demo_learner None) [100, 104] = Inr self2"
    by (cases "steps_run demo_env (demo_learner None) [100, 104]") auto
  then obtain self1 where s1: "step demo_env (demo_learner None) 100 = Inr self1"
    and s2: "step demo_env self1 104 = Inr self2"
    by (auto split: sum.splits)
  have k0: "self_num_sgd_steps_per_step (demo_learner None) = 2"
    by code_simp
  have s1': "step demo_env
      (init demo_env
         [([[10, 11], [12, 13]], [[1, 2], [3, 5]]), ([[20, 21], [22, 23]], [[2, 2], [4, 4]])]
         2 7 None ''priority_table'' 2 2) 100 = Inr self1"
    using s1 by (simp add: demo_learner_def)
  note t = steps_per_second_reported [of demo_env "demo_learner None" 100 self1 _
      "[([[10, 11], [12, 13]], [[1, 2], [3, 5]]), ([[20, 21], [22, 23]], [[2, 2], [4, 4]])]"
      2 7 None "''priority_table''" 2 2 self1 104 self2]
  note t_stamp = t [THEN conjunct2, THEN conjunct2, THEN conjunct1, THEN mp, OF s1,
      THEN conjunct1]
  note t_first = t [THEN conjunct2, THEN conjunct2, THEN conjunct2, THEN conjunct2,
      THEN conjunct2, THEN conjunct2, THEN conjunct1, THEN mp, OF s1']
  have two: "step demo_env (demo_learner None) 100 = Inr self1 \<and>
      step demo_env self1 104 = Inr self2 \<and> (100::real) \<noteq> 0"
    using s1 s2 by simp
  note t_second = t [THEN conjunct2, THEN conjunct2, THEN conjunct2, THEN conjunct2,
      THEN conjunct2, THEN conjunct2, THEN conjunct2, THEN mp, OF two, THEN conjunct1]
  have "last (self_logger self2) ''steps_per_second'' = Some (2 / (104 - 100))"
    using t_second by (simp add: k0)
  with s1 s2 t_stamp t_first show ?thesis
    by (intro exI [of _ self1] exI [of _ self2]) simp
qed

text \<open>
  C6. A learner without a replay client, with at least one replica and an iterator that
  still holds as many fitting splits as there are calls: any number of successive \<open>step\<close>
  calls returns, and the replay store has received no request in between. The
  submission itself is a no-op: \<open>update_priorities\<close> sends nothing.
\<close>

theorem no_replay_client_no_mutation:
  assumes "self_replay_client self = None"
    and "self_state self \<noteq> []"
    and "length nows \<le> length (self_data_iterator self)"
    and "list_all (well_sharded (length (self_state self)) (self_num_sgd_steps_per_step self))
           (take (length nows) (self_data_iterator self))"
  shows "(\<exists>self'. steps_run env self nows = Inr self' \<and>
            replay_requests self' = replay_requests self) \<and>
         update_priorities (self_replay_client self) (replay_table_name self) reverb_update = None \<and>
         priority_requests (self_replay_client self) (replay_table_name self) reverb_keys extra = []"
proof -
  have "\<exists>self'. steps_run env self nows = Inr self' \<and>
            replay_requests self' = replay_requests self"
    using steps_run_advances [OF assms(2) assms(3) assms(4), of env] assms(1) by auto
  then show ?thesis
    using assms(1) by (simp add: update_priorities_def priority_requests_no_client)
qed

theorem no_replay_client_no_mutation_witness:
  "\<exists>self'. steps_run demo_env (demo_learner None) [100, 104] = Inr self' \<and>
      replay_requests self' = []"
proof -
  have h1: "self_replay_client (demo_learner None) = None"
    by code_simp
  have h2: "self_state (demo_learner None) \<noteq> []"
    by code_simp
  have h3: "length [100, 104 :: real] \<le> length (self_data_iterator (demo_learner None))"
    by code_simp
  have h4: "list_all (well_sharded (length (self_state (demo_learner None)))
             (self_num_sgd_steps_per_step (demo_learner None)))
           (take (length [100, 104 :: real]) (self_data_iterator (demo_learner None)))"
    by code_simp
  have v: "replay_requests (demo_learner None) = []"
    by code_simp
  from no_replay_client_no_mutation [OF h1 h2 h3 h4, of demo_env, THEN conjunct1] v
  show ?thesis by simp
qed

text \<open>
  C8. The constructor splits the random key once, into three keys: the first initializes
  \<open>params\<close>, the second \<open>target_params\<close>, the third is the \<open>rng_key\<close> of the initial
  state, whose \<open>steps\<close> is 0 and which every replica receives. The target is the
  initializer's value at the second key, not a copy of \<open>params\<close>: where the initializer
  gives different values at the two keys, the two differ on every replica.
\<close>

theorem init_three_keys:
  assumes "random_split3 env random_key = (key_params, key_target, key_state)"
  shows "self_state (init env data_iterator P random_key replay_client table_name K n) =
           replicate n
             \<lparr>params = network_init env key_params,
              target_params = network_init env key_target,
              opt_state = optimizer_init env (network_init env key_params),
              steps = 0, rng_key = key_state\<rparr> \<and>
         self_current_step (init env data_iterator P random_key replay_client table_name K n) = 0 \<and>
         (network_init env key_params \<noteq> network_init env key_target \<longrightarrow>
            (\<forall>s\<in>set (self_state (init env data_iterator P random_key replay_client table_name K n)).
               params s \<noteq> target_params s))"
  using assms
  by (simp add: init_def initial_state_def replicate_in_all_devices_def Let_def)

theorem init_three_keys_witness:
  "self_state (init demo_env [] 2 7 None ''priority_table'' 1 2) =
     replicate 2 \<lparr>params = [22], target_params = [23], opt_state = (), steps = 0, rng_key = 24\<rparr> \<and>
   list_all (\<lambda>s. params s \<noteq> target_params s)
     (self_state (init demo_env [] 2 7 None ''priority_table'' 1 2))"
proof -
  have h: "random_split3 demo_env 7 = (22, 23, 24)"
    by (simp add: demo_env_def)
  have d: "network_init demo_env 22 \<noteq> network_init demo_env 23"
    by (simp add: demo_env_def)
  note t = init_three_keys [OF h, of "[]" 2 None "''priority_table''" 1 2]
  have v: "network_init demo_env 22 = [22]" "network_init demo_env 23 = [23]"
    "optimizer_init demo_env [22] = ()"
    by (simp_all add: demo_env_def)
  from t [THEN conjunct1] t [THEN conjunct2, THEN conjunct2, THEN mp, OF d] show ?thesis
    by (simp add: v list_all_iff)
qed

text \<open>
  C10. On a learner with at least one replica, \<open>get_variables\<close> returns the one-element
  list of the parameters of replica 0, whatever the list of names is.
\<close>

theorem get_variables_first_replica:
  assumes "self_state self = s # rest"
  shows "get_variables self names = Inr [params s] \<and>
         get_variables self names' = get_variables self names"
  using assms by (simp add: get_variables_def get_from_first_device_def)

theorem get_variables_first_replica_witness:
  "get_variables (demo_learner None) [''policy''] = Inr [[22]] \<and>
   get_variables (demo_learner None) [] = get_variables (demo_learner None) [''policy'']"
proof -
  have h: "self_state (demo_learner None) =
      \<lparr>params = [22], target_params = [23], opt_state = (), steps = 0, rng_key = 24\<rparr> #
      [\<lparr>params = [22], target_params = [23], opt_state = (), steps = 0, rng_key = 24\<rparr>]"
    by code_simp
  from get_variables_first_replica [OF h, of "[''policy'']" "[]"] show ?thesis
    by simp
qed

section \<open>Checkpoints\<close>

lemma restore_unchanged:
  assumes "self_state self = replicate (devices self) s"
  shows "restore self s = self"
  using assms by (simp add: restore_def replicate_in_all_devices_def)

text \<open>
  C3. \<open>save\<close> takes the copy of replica 0 and \<open>restore\<close> installs one state on every
  replica, overwriting what was there. On a learner whose replicas all hold the state
  \<open>s\<close>, \<open>save\<close> returns \<open>s\<close> and restoring it gives back the learner unchanged, every
  replica holding \<open>s\<close> again; the next external step counts on from the restored \<open>steps\<close>
  value, to \<open>steps s\<close> plus the number of internal steps per step.
\<close>

theorem restore_save_identity:
  assumes "self_state self = replicate (devices self) s" and "0 < devices self"
  shows "save self = Inr s \<and> restore self s = self \<and>
         self_state (restore other s) = replicate (devices other) s \<and>
         (\<forall>i<devices other. self_state (restore other s) ! i = s) \<and>
         (self_data_iterator self = prefetching_split # rest \<and>
          well_sharded (devices self) (self_num_sgd_steps_per_step self) prefetching_split \<longrightarrow>
            (\<exists>self'. step env (restore self s) now = Inr self' \<and>
               length (self_state self') = devices self \<and>
               self_current_step self' = steps s + int (self_num_sgd_steps_per_step self) \<and>
               (\<forall>i<devices self.
                  steps (self_state self' ! i) =
                    steps s + int (self_num_sgd_steps_per_step self))))"
proof -
  have a: "save self = Inr s"
    using assms by (cases "devices self") (simp_all add: save_def get_from_first_device_def)
  have b: "restore self s = self"
    using assms(1) by (rule restore_unchanged)
  have c: "self_state (restore other s) = replicate (devices other) s"
    by (simp add: restore_def replicate_in_all_devices_def)
  have d: "\<forall>i<devices other. self_state (restore other s) ! i = s"
    by (simp add: c)
  have e: "\<exists>self'. step env (restore self s) now = Inr self' \<and>
               length (self_state self') = devices self \<and>
               self_current_step self' = steps s + int (self_num_sgd_steps_per_step self) \<and>
               (\<forall>i<devices self.
                  steps (self_state self' ! i) =
                    steps s + int (self_num_sgd_steps_per_step self))"
    if it: "self_data_iterator self = prefetching_split # rest"
      and ws: "well_sharded (devices self) (self_num_sgd_steps_per_step self) prefetching_split"
  proof -
    have len: "length (self_state self) = devices self"
      using assms(1) by simp
    have ne: "self_state self \<noteq> []"
      using assms by auto
    from step_advances [OF it _ ne, of env now] ws len obtain self' where
      s: "step env self now = Inr self'"
      and l: "length (self_state self') = length (self_state self)"
      and st: "\<forall>i<length (self_state self).
              steps (self_state self' ! i) =
                steps (self_state self ! i) + int (self_num_sgd_steps_per_step self)"
      by auto
    from step_current_step [OF s] have
      cs: "self_current_step self' = steps (self_state self' ! 0)"
      by (simp add: hd_conv_nth)
    have all: "\<forall>i<devices self.
        steps (self_state self' ! i) = steps s + int (self_num_sgd_steps_per_step self)"
      using st len assms(1) by simp
    then have "self_current_step self' = steps s + int (self_num_sgd_steps_per_step self)"
      using cs assms(2) by simp
    with s l len all show ?thesis
      by (intro exI [of _ self']) (simp add: b)
  qed
  from a b c d e show ?thesis by simp
qed

theorem restore_save_identity_witness:
  "save (demo_learner None) =
     Inr \<lparr>params = [22], target_params = [23], opt_state = (), steps = 0, rng_key = 24\<rparr> \<and>
   restore (demo_learner None)
     \<lparr>params = [22], target_params = [23], opt_state = (), steps = 0, rng_key = 24\<rparr> =
     demo_learner None \<and>
   (\<exists>self'. step demo_env
        (restore (demo_learner None)
           \<lparr>params = [22], target_params = [23], opt_state = (), steps = 0, rng_key = 24\<rparr>) 100 =
        Inr self' \<and>
      self_current_step self' = 2 \<and> steps (self_state self' ! 0) = 2 \<and>
      steps (self_state self' ! 1) = 2)"
proof -
  let ?s = "\<lparr>params = [22], target_params = [23], opt_state = (), steps = 0, rng_key = 24 :: nat\<rparr>"
  have h1: "self_state (demo_learner None) = replicate (devices (demo_learner None)) ?s"
    by code_simp
  have h2: "0 < devices (demo_learner None)"
    by code_simp
  have h3: "self_data_iterator (demo_learner None) =
      ([[10, 11], [12, 13]], [[1, 2], [3, 5]]) # [([[20, 21], [22, 23]], [[2, 2], [4, 4]])]"
    by code_simp
  have h4: "well_sharded (devices (demo_learner None))
      (self_num_sgd_steps_per_step (demo_learner None)) ([[10, 11], [12, 13]], [[1, 2 :: real], [3, 5]])"
    by code_simp
  have v: "devices (demo_learner None) = 2" "self_num_sgd_steps_per_step (demo_learner None) = 2"
    by code_simp+
  note t = restore_save_identity [OF h1 h2, of "demo_learner None"
      "([[10, 11], [12, 13]], [[1, 2], [3, 5]])" "[([[20, 21], [22, 23]], [[2, 2], [4, 4]])]"
      demo_env 100]
  from t have a: "save (demo_learner None) = Inr ?s" and b: "restore (demo_learner None) ?s = demo_learner None"
    by simp_all
  from t h3 h4 obtain self' where
    "step demo_env (restore (demo_learner None) ?s) 100 = Inr self'"
    "self_current_step self' = steps ?s + int (self_num_sgd_steps_per_step (demo_learner None))"
    "\<forall>i<devices (demo_learner None).
        steps (self_state self' ! i) = steps ?s + int (self_num_sgd_steps_per_step (demo_learner None))"
    by auto
  then have "step demo_env (restore (demo_learner None) ?s) 100 = Inr self' \<and>
      self_current_step self' = 2 \<and> steps (self_state self' ! 0) = 2 \<and>
      steps (self_state self' ! 1) = 2"
    by (simp add: v)
  then show ?thesis using a b by blast
qed

section \<open>Successive internal steps and their keys\<close>

lemma rng_key_sgd_step:
  assumes "length batches = length states" and "i < length states"
  shows "rng_key (fst (sgd_step env P states batches ! i)) =
           fst (random_split env (rng_key (states ! i)))"
  using sgd_step_nth_eq [OF assms, of env P] by (simp add: fst_sgd_step_apply)

lemma state_key_shift:
  "state_key env (fst (random_split env k)) n = fst (random_split env (state_key env k n))"
  by (induction n) simp_all

lemma length_sgd_steps:
  "list_all (\<lambda>batches. length batches = length states) rows \<Longrightarrow>
     length (sgd_steps env P states rows) = length states"
  by (induction rows arbitrary: states) (simp_all add: length_sgd_step)

lemma rng_key_sgd_steps:
  assumes "list_all (\<lambda>batches. length batches = length states) rows" and "i < length states"
  shows "rng_key (sgd_steps env P states rows ! i) =
           state_key env (rng_key (states ! i)) (length rows)"
  using assms
proof (induction rows arbitrary: states)
  case Nil
  then show ?case by simp
next
  case (Cons batches rows)
  let ?states1 = "map fst (sgd_step env P states batches)"
  have len: "length ?states1 = length states"
    using Cons.prems(1) by (simp add: length_sgd_step)
  have k1: "rng_key (?states1 ! i) = fst (random_split env (rng_key (states ! i)))"
    using Cons.prems rng_key_sgd_step [of batches states i env P] by (simp add: length_sgd_step)
  have "rng_key (sgd_steps env P ?states1 rows ! i) =
      state_key env (rng_key (?states1 ! i)) (length rows)"
    using Cons.IH [of ?states1] Cons.prems len by simp
  then show ?case
    by (simp add: k1 state_key_shift)
qed

section \<open>Priorities and metrics of an external step\<close>

lemma map_fst_scan_carry:
  assumes "length out = length carry"
  shows "map fst (map2 (\<lambda>(state, ys) (state', y). (state', ys @ [y])) carry out) = map fst out"
  using assms
  by (induction carry out rule: list_induct2') (auto split: prod.splits)

lemma scan_sgd_step_nth:
  assumes "length data = length carry" and "i < length carry"
  shows "scan_sgd_step env P data js carry ! i =
     (sgd_steps env P (map fst carry) (map (sub_batch data) js) ! i,
      snd (carry ! i) @
      map (\<lambda>n. snd (sgd_step env P
                      (sgd_steps env P (map fst carry) (map (sub_batch data) (take n js)))
                      (sub_batch data (js ! n)) ! i))
        [0..<length js])"
  using assms
proof (induction js arbitrary: carry)
  case Nil
  then show ?case by simp
next
  case (Cons j js)
  let ?out = "sgd_step env P (map fst carry) (sub_batch data j)"
  let ?carry' = "map2 (\<lambda>(state, ys) (state', y). (state', ys @ [y])) carry ?out"
  have lo: "length ?out = length carry"
    using Cons.prems by (simp add: length_sgd_step length_sub_batch)
  have len: "length ?carry' = length carry"
    using lo by simp
  have fsts: "map fst ?carry' = map fst ?out"
    using lo by (rule map_fst_scan_carry)
  have ci: "?carry' ! i = (fst (?out ! i), snd (carry ! i) @ [snd (?out ! i)])"
    using Cons.prems by (rule scan_step_carry_nth)
  have up: "[0..<length (j # js)] = 0 # map Suc [0..<length js]"
    unfolding map_Suc_upt by (simp add: upt_conv_Cons del: upt_Suc)
  have "scan_sgd_step env P data (j # js) carry ! i = scan_sgd_step env P data js ?carry' ! i"
    by (simp add: Let_def)
  also have "\<dots> =
     (sgd_steps env P (map fst ?carry') (map (sub_batch data) js) ! i,
      snd (?carry' ! i) @
      map (\<lambda>n. snd (sgd_step env P
                      (sgd_steps env P (map fst ?carry') (map (sub_batch data) (take n js)))
                      (sub_batch data (js ! n)) ! i))
        [0..<length js])"
    using Cons.IH [of ?carry'] Cons.prems len by simp
  finally have "scan_sgd_step env P data (j # js) carry ! i =
     (sgd_steps env P (map fst ?carry') (map (sub_batch data) js) ! i,
      snd (?carry' ! i) @
      map (\<lambda>n. snd (sgd_step env P
                      (sgd_steps env P (map fst ?carry') (map (sub_batch data) (take n js)))
                      (sub_batch data (js ! n)) ! i))
        [0..<length js])" .
  from this [unfolded fsts ci] show ?case
    unfolding up by (simp add: comp_def)
qed

lemma pmapped_sgd_step_nth:
  assumes "pmapped_sgd_step env P K states data = Inr out" and "i < length states"
  shows "out ! i =
     (sgd_steps env P states (map (sub_batch data) [0..<K]) ! i,
      postprocess_aux (stack (map (\<lambda>j. sub_step_extra env P states data j i) [0..<K])))"
proof -
  let ?carry = "map (\<lambda>state. (state, [])) states"
  let ?res = "scan_sgd_step env P data [0..<K] ?carry"
  from assms(1) have shape: "length data = length states"
    and out: "out = map (\<lambda>(state, ys). (state, postprocess_aux (stack ys))) ?res"
    by (auto simp: pmapped_sgd_step_def split: if_splits)
  have len: "length ?res = length states"
    using length_scan_sgd_step [of data ?carry env P "[0..<K]"] shape by simp
  have fsts: "map fst ?carry = states"
    by (simp add: comp_def)
  have "?res ! i =
     (sgd_steps env P states (map (sub_batch data) [0..<K]) ! i,
      map (\<lambda>j. sub_step_extra env P states data j i) [0..<K])"
    using scan_sgd_step_nth [of data ?carry i env P "[0..<K]"] shape assms(2)
    by (simp add: comp_def sub_step_extra_def take_upt)
  then show ?thesis
    using assms(2) len by (simp add: out)
qed

lemma those_map_Some:
  "(\<forall>y\<in>set ys. f y = Some (g y)) \<Longrightarrow> those (map f ys) = Some (map g ys)"
  by (induction ys) simp_all

lemma metrics_postprocess_stack:
  assumes "\<forall>y\<in>set ys. metrics y name = Some (v y)"
  shows "metrics (postprocess_aux (stack ys)) name =
           Some (sum_list (map v ys) / real (length ys))"
  using those_map_Some [OF assms]
  by (simp add: postprocess_aux_def stack_def jnp_mean_def Let_def)

lemma priorities_postprocess_stack:
  assumes "\<forall>y\<in>set ys. reverb_priorities y = Some (p y)"
  shows "reverb_priorities (postprocess_aux (stack ys)) = Some (concat (map p ys))"
  using those_map_Some [OF assms]
  by (simp add: postprocess_aux_def stack_def Let_def)

lemma pmapped_metrics:
  assumes "pmapped_sgd_step env P K states data = Inr out" and "i < length states"
    and "\<forall>j<K. metrics (sub_step_extra env P states data j i) name = Some (v j)"
  shows "metrics (snd (out ! i)) name = Some (sum_list (map v [0..<K]) / real K)"
proof -
  let ?ys = "map (\<lambda>j. sub_step_extra env P states data j i) [0..<K]"
  have eq: "snd (out ! i) = postprocess_aux (stack ?ys)"
    by (simp only: pmapped_sgd_step_nth [OF assms(1) assms(2)] snd_conv)
  have "those (map (\<lambda>y. metrics y name) ?ys) = Some (map v [0..<K])"
    unfolding map_map comp_def
    by (rule those_map_Some) (simp add: assms(3))
  then show ?thesis
    unfolding eq by (simp add: postprocess_aux_def stack_def jnp_mean_def Let_def)
qed


lemma pmapped_priorities:
  assumes "pmapped_sgd_step env P K states data = Inr out" and "i < length states"
    and "\<forall>j<K. reverb_priorities (sub_step_extra env P states data j i) = Some (pr j)"
  shows "reverb_priorities (snd (out ! i)) = Some (concat (map pr [0..<K]))"
proof -
  let ?ys = "map (\<lambda>j. sub_step_extra env P states data j i) [0..<K]"
  have eq: "snd (out ! i) = postprocess_aux (stack ?ys)"
    by (simp only: pmapped_sgd_step_nth [OF assms(1) assms(2)] snd_conv)
  have "those (map reverb_priorities ?ys) = Some (map pr [0..<K])"
    unfolding map_map comp_def
    by (rule those_map_Some) (simp add: assms(3))
  then show ?thesis
    unfolding eq by (simp add: postprocess_aux_def stack_def Let_def)
qed

lemma pmapped_all_priorities:
  assumes "pmapped_sgd_step env P K states data = Inr out"
    and "\<forall>i<length states. \<forall>j<K.
           reverb_priorities (sub_step_extra env P states data j i) = Some (pr i j)"
  shows "those (map reverb_priorities (map snd out)) =
           Some (map (\<lambda>i. concat (map (pr i) [0..<K])) [0..<length states])"
proof -
  have len: "length out = length states"
    using pmapped_sgd_step_Inr [OF assms(1)] by simp
  have "map (\<lambda>i. reverb_priorities (snd (out ! i))) [0..<length out] =
      map (\<lambda>e. reverb_priorities (snd e)) out"
    by (rule nth_equalityI) simp_all
  then have m: "map reverb_priorities (map snd out) =
      map (\<lambda>i. reverb_priorities (snd (out ! i))) [0..<length states]"
    unfolding len map_map comp_def by (rule sym)
  have "those (map (\<lambda>i. reverb_priorities (snd (out ! i))) [0..<length states]) =
      Some (map (\<lambda>i. concat (map (pr i) [0..<K])) [0..<length states])"
  proof (rule those_map_Some, rule ballI)
    fix i assume "i \<in> set [0..<length states]"
    then have i: "i < length states" by simp
    with assms(2) have "\<forall>j<K. reverb_priorities (sub_step_extra env P states data j i) =
        Some (pr i j)"
      by simp
    then show "reverb_priorities (snd (out ! i)) = Some (concat (map (pr i) [0..<K]))"
      by (rule pmapped_priorities [OF assms(1) i])
  qed
  then show ?thesis
    unfolding m .
qed


lemma total_loss_sgd_step:
  assumes "length batches = length states" and "i < length states"
  shows "metrics (snd (sgd_step env P states batches ! i)) ''total_loss'' =
           Some (pmean (map2 (local_loss env) states batches))"
  by (simp only: sgd_step_nth_eq [OF assms] snd_sgd_step_apply) simp

lemma total_loss_sub_step:
  assumes "length data = length states" and "i < length states"
  shows "metrics (sub_step_extra env P states data j i) ''total_loss'' =
           Some (pmean (map2 (local_loss env)
                   (sgd_steps env P states (map (sub_batch data) [0..<j])) (sub_batch data j)))"
proof -
  let ?states' = "sgd_steps env P states (map (sub_batch data) [0..<j])"
  have "list_all (\<lambda>batches. length batches = length states) (map (sub_batch data) [0..<j])"
    using assms(1) by (simp add: list_all_iff length_sub_batch)
  then have len: "length ?states' = length states"
    by (rule length_sgd_steps)
  have a: "length (sub_batch data j) = length ?states'"
    using len assms(1) by (simp add: length_sub_batch)
  have b: "i < length ?states'"
    using len assms(2) by simp
  show ?thesis
    unfolding sub_step_extra_def by (rule total_loss_sgd_step [OF a b])
qed

lemma priority_requests_Some:
  assumes "those (map reverb_priorities extra) = Some ps"
  shows "priority_requests (Some c) table_name reverb_keys extra =
           [\<lparr>table = table_name, updates = py_dict (zip (concat reverb_keys) (concat ps))\<rparr>]"
  using assms by (simp add: priority_requests_def update_priorities_def Let_def)

lemma step_logged_metric:
  assumes "step env self now = Inr self'"
    and "self_data_iterator self = prefetching_split # rest"
    and "pmapped_sgd_step env (self_target_update_period self)
           (self_num_sgd_steps_per_step self) (self_state self) (snd prefetching_split) = Inr out"
    and "name \<noteq> ''steps_per_second''"
    and "metrics (snd (out ! 0)) name = Some x"
  shows "last (self_logger self') name = Some x"
proof -
  from step_result [OF assms(1)] assms(2) assms(3) have ne: "out \<noteq> []"
    and l: "last (self_logger self') =
      counter_increment (self_counter self)
        [(''steps'', real (self_num_sgd_steps_per_step self)),
         (''walltime'', elapsed_time (self_timestamp self) now)] ++
      (metrics (snd (hd out)))
        (''steps_per_second'' \<mapsto>
           (if elapsed_time (self_timestamp self) now = 0 then 0
            else real (self_num_sgd_steps_per_step self) /
                 elapsed_time (self_timestamp self) now))"
    by auto
  have "hd out = out ! 0"
    using ne by (simp add: hd_conv_nth)
  then show ?thesis
    unfolding l using assms(4) assms(5) by (simp add: map_add_def)
qed

lemma step_requests:
  assumes "step env self now = Inr self'"
    and "self_data_iterator self = prefetching_split # rest"
    and "pmapped_sgd_step env (self_target_update_period self)
           (self_num_sgd_steps_per_step self) (self_state self) (snd prefetching_split) = Inr out"
  shows "replay_requests self' = replay_requests self @
           priority_requests (self_replay_client self) (replay_table_name self)
             (fst prefetching_split) (map snd out)"
  using step_result [OF assms(1)] assms(2) assms(3) by auto


text \<open>
  C9, as amended. After an external step with K sub-steps, when a replay client is
  configured and every sub-step produced priorities on every replica, the replay store
  receives one request: the replay keys, flattened over the replica axis, mapped to the
  priorities flattened in the same order, replica by replica, within a replica sub-step by
  sub-step, within a sub-step in sample order. Each metric is reduced to one scalar by
  the arithmetic mean over the K sub-steps on each replica, and the value logged is the
  one of replica 0. The metric \<open>total_loss\<close> of a sub-step is the mean of the replicas'
  losses on every replica, so that for it the logged value is a mean over both axes.
\<close>

theorem external_step_priorities_and_metrics:
  fixes self :: "('o, 'k, 'b) SGDLearner"
  defines "K \<equiv> self_num_sgd_steps_per_step self"
    and "P \<equiv> self_target_update_period self"
    and "states \<equiv> self_state self"
  assumes "step env self now = Inr self'"
    and "self_data_iterator self = (reverb_keys, data) # rest"
  shows "(self_replay_client self = Some c \<and>
          (\<forall>i<length states. \<forall>j<K.
             reverb_priorities (sub_step_extra env P states data j i) = Some (pr i j)) \<longrightarrow>
            replay_requests self' = replay_requests self @
              [\<lparr>table = replay_table_name self,
                updates = py_dict (zip (concat reverb_keys)
                  (concat (map (\<lambda>i. concat (map (pr i) [0..<K])) [0..<length states])))\<rparr>]) \<and>
         (name \<noteq> ''steps_per_second'' \<and>
          (\<forall>j<K. metrics (sub_step_extra env P states data j 0) name = Some (v j)) \<longrightarrow>
            last (self_logger self') name = Some (sum_list (map v [0..<K]) / real K)) \<and>
         (\<forall>i<length states. \<forall>j.
            metrics (sub_step_extra env P states data j i) ''total_loss'' =
              Some (pmean (map2 (local_loss env)
                      (sgd_steps env P states (map (sub_batch data) [0..<j]))
                      (sub_batch data j))))"
proof -
  from step_result [OF assms(4)] assms(5) obtain out where
    out: "pmapped_sgd_step env P K states data = Inr out" and ne: "out \<noteq> []"
    unfolding K_def P_def states_def by auto
  have out': "pmapped_sgd_step env (self_target_update_period self)
      (self_num_sgd_steps_per_step self) (self_state self) (snd (reverb_keys, data)) = Inr out"
    using out unfolding K_def P_def states_def by simp
  have len: "length out = length states"
    using pmapped_sgd_step_Inr [OF out] by simp
  then have pos: "0 < length states"
    using ne by auto
  have shape: "length data = length states"
    using out by (auto simp: pmapped_sgd_step_def split: if_splits)
  have a: "replay_requests self' = replay_requests self @
       [\<lparr>table = replay_table_name self,
         updates = py_dict (zip (concat reverb_keys)
           (concat (map (\<lambda>i. concat (map (pr i) [0..<K])) [0..<length states])))\<rparr>]"
    if c: "self_replay_client self = Some c"
      and p: "\<forall>i<length states. \<forall>j<K.
             reverb_priorities (sub_step_extra env P states data j i) = Some (pr i j)"
  proof -
    have "those (map reverb_priorities (map snd out)) =
        Some (map (\<lambda>i. concat (map (pr i) [0..<K])) [0..<length states])"
      using out p by (rule pmapped_all_priorities)
    then have "priority_requests (Some c) (replay_table_name self) reverb_keys (map snd out) =
       [\<lparr>table = replay_table_name self,
         updates = py_dict (zip (concat reverb_keys)
           (concat (map (\<lambda>i. concat (map (pr i) [0..<K])) [0..<length states])))\<rparr>]"
      by (rule priority_requests_Some)
    then show ?thesis
      using step_requests [OF assms(4) assms(5) out'] c by simp
  qed
  have b: "last (self_logger self') name = Some (sum_list (map v [0..<K]) / real K)"
    if n: "name \<noteq> ''steps_per_second''"
      and m: "\<forall>j<K. metrics (sub_step_extra env P states data j 0) name = Some (v j)"
  proof -
    have "metrics (snd (out ! 0)) name = Some (sum_list (map v [0..<K]) / real K)"
      using out pos m by (rule pmapped_metrics)
    then show ?thesis
      by (rule step_logged_metric [OF assms(4) assms(5) out' n])
  qed
  have t: "\<forall>i<length states. \<forall>j.
            metrics (sub_step_extra env P states data j i) ''total_loss'' =
              Some (pmean (map2 (local_loss env)
                      (sgd_steps env P states (map (sub_batch data) [0..<j]))
                      (sub_batch data j)))"
    using total_loss_sub_step [OF shape] by simp
  from a b t show ?thesis by (intro conjI impI) (elim conjE, assumption+)+
qed


theorem external_step_priorities_and_metrics_witness:
  "\<exists>self'. step demo_env (demo_learner (Some Client)) 100 = Inr self' \<and>
      replay_requests self' =
        [\<lparr>table = ''priority_table'',
          updates = py_dict (zip [10, 11, 12, 13] [1, 2, 3, 5])\<rparr>] \<and>
      last (self_logger self') ''m'' = Some ((1 + 2) / 2)"
proof -
  let ?L = "demo_learner (Some Client)"
  let ?pr = "\<lambda>i j. [[[1 :: real, 2], [3, 5]] ! i ! j]"
  let ?v = "\<lambda>j. [1 :: real, 2] ! j"
  have "case step demo_env ?L 100 of Inl e \<Rightarrow> False | Inr self' \<Rightarrow> True"
    by code_simp
  then obtain self' where s: "step demo_env ?L 100 = Inr self'"
    by (cases "step demo_env ?L 100") auto
  have it: "self_data_iterator ?L =
      ([[10, 11], [12, 13]], [[1, 2], [3, 5]]) # [([[20, 21], [22, 23]], [[2, 2], [4, 4]])]"
    by code_simp
  have c: "self_replay_client ?L = Some Client"
    by code_simp
  have v: "length (self_state ?L) = 2" "self_num_sgd_steps_per_step ?L = 2"
    "replay_requests ?L = []" "replay_table_name ?L = ''priority_table''"
    by code_simp+
  have p: "reverb_priorities (sub_step_extra demo_env (self_target_update_period ?L)
             (self_state ?L) [[1, 2], [3, 5]] 0 0) = Some [1]"
    "reverb_priorities (sub_step_extra demo_env (self_target_update_period ?L)
             (self_state ?L) [[1, 2], [3, 5]] 1 0) = Some [2]"
    "reverb_priorities (sub_step_extra demo_env (self_target_update_period ?L)
             (self_state ?L) [[1, 2], [3, 5]] 0 1) = Some [3]"
    "reverb_priorities (sub_step_extra demo_env (self_target_update_period ?L)
             (self_state ?L) [[1, 2], [3, 5]] 1 1) = Some [5]"
    by code_simp+
  have m: "metrics (sub_step_extra demo_env (self_target_update_period ?L)
             (self_state ?L) [[1, 2], [3, 5]] 0 0) ''m'' = Some 1"
    "metrics (sub_step_extra demo_env (self_target_update_period ?L)
             (self_state ?L) [[1, 2], [3, 5]] 1 0) ''m'' = Some 2"
    by code_simp+
  have hp: "self_replay_client ?L = Some Client \<and>
      (\<forall>i<length (self_state ?L). \<forall>j < self_num_sgd_steps_per_step ?L.
         reverb_priorities (sub_step_extra demo_env (self_target_update_period ?L)
           (self_state ?L) [[1, 2], [3, 5]] j i) = Some (?pr i j))"
    using c p by (simp add: v less_Suc_eq numeral_2_eq_2)
  have hm: "''m'' \<noteq> ''steps_per_second'' \<and>
      (\<forall>j < self_num_sgd_steps_per_step ?L.
         metrics (sub_step_extra demo_env (self_target_update_period ?L)
           (self_state ?L) [[1, 2], [3, 5]] j 0) ''m'' = Some (?v j))"
    using m by (simp add: v less_Suc_eq numeral_2_eq_2)
  note t = external_step_priorities_and_metrics [OF s it, of Client ?pr "''m''" ?v]
  have a: "replay_requests self' = replay_requests ?L @
      [\<lparr>table = replay_table_name ?L,
        updates = py_dict (zip (concat [[10, 11], [12, 13]])
          (concat (map (\<lambda>i. concat (map (?pr i) [0..<self_num_sgd_steps_per_step ?L]))
             [0..<length (self_state ?L)])))\<rparr>]"
    using t [THEN conjunct1] hp by (rule mp)
  have b: "last (self_logger self') ''m'' =
      Some (sum_list (map ?v [0..<self_num_sgd_steps_per_step ?L]) /
        real (self_num_sgd_steps_per_step ?L))"
    using t [THEN conjunct2, THEN conjunct1] hm by (rule mp)
  have u: "[0..<2] = [0, Suc 0]"
    by (simp add: upt_conv_Cons)
  have "replay_requests self' =
        [\<lparr>table = ''priority_table'',
          updates = py_dict (zip [10, 11, 12, 13] [1, 2, 3, 5])\<rparr>]"
    unfolding a v by (simp add: u)
  moreover have "last (self_logger self') ''m'' = Some ((1 + 2) / 2)"
    unfolding b v by (simp add: u)
  ultimately show ?thesis
    using s by (intro exI [of _ self']) simp
qed

text \<open>
  C9, as stated, fails. The demo learner has two replicas and two sub-steps; its metric
  \<open>m\<close> is 1 and 2 in the sub-steps of replica 0 and 3 and 5 in those of replica 1. The
  logged value is 3/2, the mean over the sub-steps of replica 0; the mean over both the
  replica axis and the sub-steps is 11/4.
\<close>

theorem metric_not_averaged_over_replicas:
  "case step demo_env (demo_learner None) 100 of
     Inl e \<Rightarrow> False
   | Inr self' \<Rightarrow>
       map (\<lambda>i. map (\<lambda>j. metrics (sub_step_extra demo_env 2 (self_state (demo_learner None))
                              [[1, 2], [3, 5]] j i) ''m'') [0, 1]) [0, 1] =
         [[Some 1, Some 2], [Some 3, Some 5]] \<and>
       last (self_logger self') ''m'' = Some (3 / 2) \<and>
       jnp_mean [1, 2, 3, 5] = 11 / 4 \<and>
       last (self_logger self') ''m'' \<noteq> Some (jnp_mean [1, 2, 3, 5])"
  by code_simp

end
